theory Spec2Isabelle
  imports Main "HOL-Library.AList"
begin

section \<open>The AI gateway worker (\<^verbatim>\<open>src/cfapi/_worker.js\<close>)\<close>

text \<open>
  The worker is a reverse proxy: the first path segment of an inbound request names a
  provider, the request is forwarded to that provider's host, and a request that carries
  the master key is sent with keys drawn round-robin from a configured pool, with a
  bounded retry when a key is answered with status 429.

  Strings are byte strings: ASCII text is written as a literal and every other character
  of the source (the Chinese error texts) by its UTF-8 bytes. The JavaScript values the
  code inspects are modelled as far as the code inspects them; each such choice is stated
  at the definition it concerns.
\<close>

subsection \<open>JavaScript values\<close>

text \<open>
  The values \<^verbatim>\<open>JSON.parse\<close> produces. Numbers are carried by their integer value:
  the worker only tests a number for being falsy and prints it.
\<close>

datatype json =
    JNull
  | JBool bool
  | JNum int
  | JStr string
  | JArr "json list"
  | JObj "(string \<times> json) list"

text \<open>Truthiness, as \<^verbatim>\<open>||\<close>, \<^verbatim>\<open>&&\<close> and \<^verbatim>\<open>if\<close> see it.\<close>

fun truthy :: "json \<Rightarrow> bool" where
  "truthy JNull = False"
| "truthy (JBool b) = b"
| "truthy (JNum n) = (n \<noteq> 0)"
| "truthy (JStr s) = (s \<noteq> [])"
| "truthy (JArr _) = True"
| "truthy (JObj _) = True"

text \<open>A string or \<^verbatim>\<open>null\<close>/\<^verbatim>\<open>undefined\<close> used as a condition.\<close>

definition truthy_str :: "string option \<Rightarrow> bool" where
  "truthy_str v = (case v of None \<Rightarrow> False | Some s \<Rightarrow> s \<noteq> [])"

text \<open>Decimal digits of a number, for the string conversion of a template literal.\<close>

fun digits10 :: "nat \<Rightarrow> string" where
  "digits10 n =
     (if n < 10 then [''0123456789'' ! n]
      else digits10 (n div 10) @ [''0123456789'' ! (n mod 10)])"

definition show_int :: "int \<Rightarrow> string" where
  "show_int i = (if i < 0 then CHR ''-'' # digits10 (nat (- i)) else digits10 (nat i))"

fun intersperse_comma :: "string list \<Rightarrow> string" where
  "intersperse_comma [] = []"
| "intersperse_comma [s] = s"
| "intersperse_comma (s # t # ss) = s @ '','' @ intersperse_comma (t # ss)"

text \<open>
  \<^verbatim>\<open>`${v}`\<close> and the conversion \<^verbatim>\<open>headers.set\<close> applies to its value: a string is
  itself, an array joins its elements with commas (\<^verbatim>\<open>null\<close> elements print empty), an
  object prints as \<^verbatim>\<open>[object Object]\<close>.
\<close>

fun js_ToString :: "json \<Rightarrow> string" where
  "js_ToString JNull = ''null''"
| "js_ToString (JBool b) = (if b then ''true'' else ''false'')"
| "js_ToString (JNum n) = show_int n"
| "js_ToString (JStr s) = s"
| "js_ToString (JArr vs) =
     intersperse_comma (map (\<lambda>v. if v = JNull then [] else js_ToString v) vs)"
| "js_ToString (JObj _) = ''[object Object]''"

text \<open>A JavaScript number that may be \<^verbatim>\<open>NaN\<close>.\<close>

datatype jsnum = NaN | Num int

text \<open>\<^verbatim>\<open>Math.min(a, b)\<close> with \<open>b\<close> a proper number: \<^verbatim>\<open>NaN\<close> is contagious.\<close>

fun Math_min :: "jsnum \<Rightarrow> int \<Rightarrow> jsnum" where
  "Math_min NaN b = NaN"
| "Math_min (Num a) b = Num (min a b)"

text \<open>\<^verbatim>\<open>i < m\<close> for a counter \<open>i\<close>: every comparison with \<^verbatim>\<open>NaN\<close> is false.\<close>

fun js_less :: "nat \<Rightarrow> jsnum \<Rightarrow> bool" where
  "js_less i NaN = False"
| "js_less i (Num m) = (int i < m)"

text \<open>
  The remainder operator \<^verbatim>\<open>%\<close> of JavaScript on integers, which is also the
  \<^verbatim>\<open>%\<close> of SQLite: the result has the sign of the dividend.
\<close>

definition js_rem :: "int \<Rightarrow> int \<Rightarrow> int" where
  "js_rem a b = sgn a * (\<bar>a\<bar> mod \<bar>b\<bar>)"

subsubsection \<open>\<^verbatim>\<open>parseInt\<close>\<close>

text \<open>
  Texts are lists of bytes (UTF-8). The white space \<^verbatim>\<open>parseInt\<close> skips is that of
  \<^verbatim>\<open>String.prototype.trim\<close>: the code points of \<^verbatim>\<open>WhiteSpace\<close> and \<^verbatim>\<open>LineTerminator\<close>.
  Six of them are one byte long; the others are U+00A0, U+1680, U+2000 to U+200A,
  U+2028, U+2029, U+202F, U+205F, U+3000 and U+FEFF, here by their encodings.
\<close>

definition is_space :: "char \<Rightarrow> bool" where
  "is_space c = (c \<in> set [CHR '' '', CHR 0x09, CHR 0x0A, CHR 0x0B, CHR 0x0C, CHR 0x0D])"

definition wide_spaces :: "string list" where
  "wide_spaces =
     [[CHR 0xC2, CHR 0xA0], [CHR 0xE1, CHR 0x9A, CHR 0x80],
      [CHR 0xE2, CHR 0x80, CHR 0x80], [CHR 0xE2, CHR 0x80, CHR 0x81],
      [CHR 0xE2, CHR 0x80, CHR 0x82], [CHR 0xE2, CHR 0x80, CHR 0x83],
      [CHR 0xE2, CHR 0x80, CHR 0x84], [CHR 0xE2, CHR 0x80, CHR 0x85],
      [CHR 0xE2, CHR 0x80, CHR 0x86], [CHR 0xE2, CHR 0x80, CHR 0x87],
      [CHR 0xE2, CHR 0x80, CHR 0x88], [CHR 0xE2, CHR 0x80, CHR 0x89],
      [CHR 0xE2, CHR 0x80, CHR 0x8A], [CHR 0xE2, CHR 0x80, CHR 0xA8],
      [CHR 0xE2, CHR 0x80, CHR 0xA9], [CHR 0xE2, CHR 0x80, CHR 0xAF],
      [CHR 0xE2, CHR 0x81, CHR 0x9F], [CHR 0xE3, CHR 0x80, CHR 0x80],
      [CHR 0xEF, CHR 0xBB, CHR 0xBF]]"

fun skip_space :: "string \<Rightarrow> string" where
  "skip_space [] = []"
| "skip_space (c # cs) =
     (if is_space c then skip_space cs
      else (case find (\<lambda>w. take (length w) (c # cs) = w) wide_spaces of
              None \<Rightarrow> c # cs
            | Some w \<Rightarrow> skip_space (drop (length w - 1) cs)))"

definition digit_val :: "nat \<Rightarrow> char \<Rightarrow> nat option" where
  "digit_val radix c =
     (let n = (of_char c :: nat);
          v = (if 48 \<le> n \<and> n \<le> 57 then Some (n - 48)
               else if 97 \<le> n \<and> n \<le> 122 then Some (n - 87)
               else if 65 \<le> n \<and> n \<le> 90 then Some (n - 55)
               else None)
      in case v of None \<Rightarrow> None | Some d \<Rightarrow> if d < radix then Some d else None)"

fun digits_value :: "nat \<Rightarrow> nat \<Rightarrow> string \<Rightarrow> nat option \<Rightarrow> nat option" where
  "digits_value radix acc [] seen = seen"
| "digits_value radix acc (c # cs) seen =
     (case digit_val radix c of
        None \<Rightarrow> seen
      | Some d \<Rightarrow> digits_value radix (acc * radix + d) cs (Some (acc * radix + d)))"

text \<open>
  \<^verbatim>\<open>parseInt(s)\<close> without a radix: leading white space is skipped, a sign is read, a
  \<^verbatim>\<open>0x\<close> prefix selects base 16, and the longest run of digits is the value; with no
  digit the result is \<^verbatim>\<open>NaN\<close>. Whatever follows the digits is ignored. The value is
  the integer the digits denote; the runtime keeps the nearest double, which is the same
  number up to \<open>2\<^sup>5\<^sup>3\<close> and is above every array length beyond.
\<close>

definition parseInt :: "string \<Rightarrow> jsnum" where
  "parseInt s =
     (let t = skip_space s;
          neg = (t \<noteq> [] \<and> hd t = CHR ''-'');
          t1 = (if t \<noteq> [] \<and> (hd t = CHR ''-'' \<or> hd t = CHR ''+'') then tl t else t);
          hex = (case t1 of
                   a # b # _ \<Rightarrow> a = CHR ''0'' \<and> (b = CHR ''x'' \<or> b = CHR ''X'')
                 | _ \<Rightarrow> False);
          radix = (if hex then 16 else 10);
          t2 = (if hex then drop 2 t1 else t1)
      in case digits_value radix 0 t2 None of
           None \<Rightarrow> NaN
         | Some v \<Rightarrow> Num (if neg then - int v else int v))"

subsubsection \<open>Strings\<close>

text \<open>Case conversion, on the letters of ASCII.\<close>

definition lower_letters :: string where
  "lower_letters = ''abcdefghijklmnopqrstuvwxyz''"

definition upper_letters :: string where
  "upper_letters = ''ABCDEFGHIJKLMNOPQRSTUVWXYZ''"

definition toUpperCase :: "string \<Rightarrow> string" where
  "toUpperCase s =
     map (\<lambda>c. case map_of (zip lower_letters upper_letters) c of Some u \<Rightarrow> u | None \<Rightarrow> c) s"

definition toLowerCase :: "string \<Rightarrow> string" where
  "toLowerCase s =
     map (\<lambda>c. case map_of (zip upper_letters lower_letters) c of Some l \<Rightarrow> l | None \<Rightarrow> c) s"

definition startsWith :: "string \<Rightarrow> string \<Rightarrow> bool" where
  "startsWith s p = (take (length p) s = p)"

text \<open>\<^verbatim>\<open>s.split(sep)\<close> for a one-character separator: never an empty list.\<close>

fun split :: "char \<Rightarrow> string \<Rightarrow> string list" where
  "split sep [] = [[]]"
| "split sep (c # cs) =
     (if c = sep then [] # split sep cs
      else (case split sep cs of
              [] \<Rightarrow> [[c]]
            | w # ws \<Rightarrow> (c # w) # ws))"

subsection \<open>Requests, responses, URLs\<close>

text \<open>
  A \<^verbatim>\<open>Headers\<close> object: an association list under lower-case names, which is how the
  object keeps them; the accessors lower-case the name they are given.
\<close>

type_synonym headers = "(string \<times> string) list"

definition headers_get :: "headers \<Rightarrow> string \<Rightarrow> string option" where
  "headers_get hs name = map_of hs (toLowerCase name)"

definition headers_has :: "headers \<Rightarrow> string \<Rightarrow> bool" where
  "headers_has hs name = (map_of hs (toLowerCase name) \<noteq> None)"

definition headers_set :: "headers \<Rightarrow> string \<Rightarrow> string \<Rightarrow> headers" where
  "headers_set hs name v = AList.update (toLowerCase name) v hs"

text \<open>
  A parsed URL, by the components the worker reads or assigns, and the two it leaves
  alone (scheme and port). \<open>searchParams\<close> is the query as \<^verbatim>\<open>URLSearchParams\<close> lists it.
\<close>

record url =
  protocol :: string
  hostname :: string
  port :: string
  pathname :: string
  searchParams :: "(string \<times> string) list"

text \<open>
  A request. \<open>r_body\<close> is \<open>None\<close> for a request without body (\<^verbatim>\<open>request.body\<close> is
  \<^verbatim>\<open>null\<close>), otherwise the bytes the body stream delivers.
\<close>

record request =
  r_method :: string
  r_url :: url
  r_headers :: headers
  r_body :: "string option"

text \<open>A response; an upstream response is a final HTTP response (status 200 to 599).\<close>

record response =
  status :: nat
  headers :: headers
  body :: "string option"

subsection \<open>The rotation counter in D1\<close>

text \<open>
  The table \<^verbatim>\<open>rotation_state\<close>: one row per service, here the column
  \<^verbatim>\<open>next_index\<close> by \<^verbatim>\<open>service_name\<close> (the time stamp column is never read).
  \<open>fault\<close> is set when the database answers a statement with an error, and holds the
  error's message.
\<close>

record d1 =
  rows :: "(string \<times> int) list"
  fault :: "string option"

text \<open>
  The statement of \<^verbatim>\<open>getNextKeyIndex\<close>:
  \<^verbatim>\<open>INSERT ... VALUES (?1, 1, ...) ON CONFLICT(service_name) DO UPDATE
  SET next_index = (next_index + 1) % ?2 RETURNING next_index\<close>.
  It yields the value of \<^verbatim>\<open>next_index\<close> after the statement and the new table.
  A modulus of 0 makes \<^verbatim>\<open>%\<close> yield \<^verbatim>\<open>NULL\<close>, which the column rejects.
  The column holds 64-bit integers: at the greatest of them \<^verbatim>\<open>next_index + 1\<close> is a
  floating-point number, which \<^verbatim>\<open>%\<close> casts back to the greatest integer.
\<close>

definition upsert :: "d1 \<Rightarrow> string \<Rightarrow> int \<Rightarrow> string + (int \<times> d1)" where
  "upsert db service keysCount =
     (case fault db of
        Some msg \<Rightarrow> Inl msg
      | None \<Rightarrow>
          (case map_of (rows db) service of
             None \<Rightarrow> Inr (1, db\<lparr>rows := AList.update service 1 (rows db)\<rparr>)
           | Some v \<Rightarrow>
               if keysCount = 0 then Inl ''NOT NULL constraint failed: rotation_state.next_index''
               else (let v' = js_rem (min (v + 1) (2 ^ 63 - 1)) keysCount
                     in Inr (v', db\<lparr>rows := AList.update service v' (rows db)\<rparr>))))"

definition msg_db_missing :: string where
  "msg_db_missing = ''D1'' @ [CHR 0xE6, CHR 0x95, CHR 0xB0, CHR 0xE6, CHR 0x8D, CHR 0xAE,
     CHR 0xE5, CHR 0xBA, CHR 0x93, CHR 0xE6, CHR 0x9C, CHR 0xAA, CHR 0xE9, CHR 0x85,
     CHR 0x8D, CHR 0xE7, CHR 0xBD, CHR 0xAE]"

definition msg_db_error :: string where
  "msg_db_error = ''D1'' @ [CHR 0xE6, CHR 0x95, CHR 0xB0, CHR 0xE6, CHR 0x8D, CHR 0xAE,
     CHR 0xE5, CHR 0xBA, CHR 0x93, CHR 0xE9, CHR 0x94, CHR 0x99, CHR 0xE8, CHR 0xAF,
     CHR 0xAF] @ '': ''"

text \<open>
  \<^verbatim>\<open>getNextKeyIndex(db, service, keysCount)\<close>. \<open>Inl\<close> is the message of the error
  thrown; \<open>Inr\<close> is the index returned, with the table as the statement left it.
  \<^verbatim>\<open>results[0]?.next_index || 1\<close> replaces a returned 0 by 1, as it would a missing
  value.
\<close>

definition getNextKeyIndex :: "d1 option \<Rightarrow> string \<Rightarrow> nat \<Rightarrow> string + (nat \<times> d1)" where
  "getNextKeyIndex db service keysCount =
     (case db of
        None \<Rightarrow> Inl msg_db_missing
      | Some d \<Rightarrow>
          (case upsert d service (int keysCount) of
             Inl msg \<Rightarrow> Inl (msg_db_error @ msg)
           | Inr (next_index, d') \<Rightarrow>
               (let nextIndex = (if next_index \<noteq> 0 then next_index else 1)
                in Inr (nat (js_rem (nextIndex - 1 + int keysCount) (int keysCount)), d'))))"

definition empty_db :: d1 where
  "empty_db = \<lparr>rows = [], fault = None\<rparr>"


subsection \<open>Configuration\<close>

text \<open>
  \<^verbatim>\<open>ROUTE_MAP\<close> is an object literal, so \<^verbatim>\<open>ROUTE_MAP[name]\<close> finds the five own
  properties and, for any other name, whatever \<^verbatim>\<open>Object.prototype\<close> holds under it:
  a function, or for \<^verbatim>\<open>__proto__\<close> the prototype object itself. The lookup therefore
  has three outcomes: a host, an inherited value (truthy, and not a host name), or
  \<^verbatim>\<open>undefined\<close> (\<open>None\<close>).
\<close>

definition ROUTE_MAP :: "(string \<times> string) list" where
  "ROUTE_MAP =
     [(''cerebras'', ''api.cerebras.ai''),
      (''claude'', ''api.anthropic.com''),
      (''gemini'', ''generativelanguage.googleapis.com''),
      (''groq'', ''api.groq.com''),
      (''openai'', ''api.openai.com'')]"

definition Object_prototype :: "string list" where
  "Object_prototype =
     [''constructor'', ''hasOwnProperty'', ''isPrototypeOf'', ''propertyIsEnumerable'',
      ''toLocaleString'', ''toString'', ''valueOf'', ''__proto__'',
      ''__defineGetter__'', ''__defineSetter__'', ''__lookupGetter__'', ''__lookupSetter__'']"

datatype route = Host string | Inherited

definition ROUTE_MAP_get :: "string \<Rightarrow> route option" where
  "ROUTE_MAP_get name =
     (case map_of ROUTE_MAP name of
        Some host \<Rightarrow> Some (Host host)
      | None \<Rightarrow> if name \<in> set Object_prototype then Some Inherited else None)"

text \<open>
  The worker's \<^verbatim>\<open>env\<close>: the variables it reads by a fixed name, the variables it
  reads by a computed name (\<open>vars\<close>, for \<^verbatim>\<open><SERVICE>_KEYS\<close>), whether the Analytics
  Engine binding \<^verbatim>\<open>LOGS\<close> exists, and the D1 binding \<^verbatim>\<open>DB\<close> with the table it holds.
\<close>

record env =
  MASTER_KEY :: "string option"
  ROTATION_LIMIT :: "string option"
  vars :: "string \<Rightarrow> string option"
  LOGS :: bool
  DB :: "d1 option"

text \<open>
  What the worker calls and does not define: the network behind the global
  \<^verbatim>\<open>fetch\<close>, and \<^verbatim>\<open>JSON.parse\<close>. \<open>upstream P sent rq\<close> is the outcome of sending
  \<open>rq\<close> after the requests \<open>sent\<close>: \<open>Inr\<close> a response, \<open>Inl\<close> the message of the
  error \<^verbatim>\<open>fetch\<close> throws. \<open>JSON_parse P s\<close> is \<open>Inr\<close> the value or \<open>Inl\<close> the message
  of the \<^verbatim>\<open>SyntaxError\<close>.
\<close>

record platform =
  upstream :: "request list \<Rightarrow> request \<Rightarrow> string + response"
  JSON_parse :: "string \<Rightarrow> string + json"

subsection \<open>\<^verbatim>\<open>extractApiKey\<close>\<close>

definition extractApiKey :: "request \<Rightarrow> string \<Rightarrow> string option" where
  "extractApiKey request service =
     (if service = ''gemini'' then
        (let apiKeyFromHeader = headers_get (r_headers request) ''x-goog-api-key''
         in if truthy_str apiKeyFromHeader then apiKeyFromHeader
            else (let apiKeyFromUrl = map_of (searchParams (r_url request)) ''key''
                  in if truthy_str apiKeyFromUrl then apiKeyFromUrl else None))
      else if service = ''claude'' then
        (let k = headers_get (r_headers request) ''x-api-key''
         in if truthy_str k then k else None)
      else
        (case headers_get (r_headers request) ''Authorization'' of
           None \<Rightarrow> None
         | Some authHeader \<Rightarrow>
             if authHeader \<noteq> [] \<and> startsWith authHeader ''Bearer ''
             then Some (drop 7 authHeader) else None))"

subsection \<open>Responses the worker builds\<close>

text \<open>
  \<^verbatim>\<open>new Response(text, {status})\<close>: a text body gives the response its content type
  and no other header.
\<close>

definition text_response :: "string \<Rightarrow> nat \<Rightarrow> response" where
  "text_response text st =
     \<lparr>status = st, headers = [(''content-type'', ''text/plain;charset=UTF-8'')],
      body = Some text\<rparr>"

text \<open>
  \<^verbatim>\<open>new Response(r.body, r)\<close>: status and headers of \<open>r\<close>, and the body given. The
  constructor accepts every status from 200 to 599, so it accepts every upstream response.
\<close>

definition new_Response :: "string option \<Rightarrow> response \<Rightarrow> response" where
  "new_Response b init = \<lparr>status = status init, headers = headers init, body = b\<rparr>"

definition allow_methods :: string where
  "allow_methods = ''GET, POST, PUT, DELETE, PATCH, OPTIONS''"

definition allow_headers :: string where
  "allow_headers =
     ''Content-Type, Authorization, x-api-key, x-goog-api-key, anthropic-version, openai-organization''"

definition applyCorsHeaders :: "response \<Rightarrow> response" where
  "applyCorsHeaders response =
     (if \<not> headers_has (headers response) ''Access-Control-Allow-Origin'' then
        response\<lparr>headers :=
          headers_set
            (headers_set
               (headers_set (headers response) ''Access-Control-Allow-Origin'' ''*'')
               ''Access-Control-Allow-Methods'' allow_methods)
            ''Access-Control-Allow-Headers'' allow_headers\<rparr>
      else response)"

definition handleOptions :: response where
  "handleOptions =
     \<lparr>status = 204,
      headers =
        [(''access-control-allow-origin'', ''*''),
         (''access-control-allow-methods'', allow_methods),
         (''access-control-allow-headers'', allow_headers)],
      body = None\<rparr>"

definition msg_url_format :: string where
  "msg_url_format = ''url'' @ [CHR 0xE6, CHR 0xA0, CHR 0xBC, CHR 0xE5, CHR 0xBC, CHR 0x8F,
     CHR 0xE9, CHR 0x94, CHR 0x99, CHR 0xE8, CHR 0xAF, CHR 0xAF]"

definition msg_no_keys :: string where
  "msg_no_keys = [CHR 0xE6, CHR 0x9C, CHR 0xAA, CHR 0xE9, CHR 0x85, CHR 0x8D, CHR 0xE7,
     CHR 0xBD, CHR 0xAE, CHR 0xE8, CHR 0xBD, CHR 0xAE, CHR 0xE8, CHR 0xAF, CHR 0xA2]
     @ ''api key''"

definition msg_exhausted :: string where
  "msg_exhausted = [CHR 0xE6, CHR 0x89, CHR 0x80, CHR 0xE6, CHR 0x9C, CHR 0x89] @ ''API''
     @ [CHR 0xE5, CHR 0xAF, CHR 0x86, CHR 0xE9, CHR 0x92, CHR 0xA5, CHR 0xE5, CHR 0x9D,
        CHR 0x87, CHR 0xE5, CHR 0xB7, CHR 0xB2, CHR 0xE8, CHR 0xB6, CHR 0x85, CHR 0xE5,
        CHR 0x87, CHR 0xBA, CHR 0xE9, CHR 0x85, CHR 0x8D, CHR 0xE9, CHR 0xA2, CHR 0x9D,
        CHR 0xEF, CHR 0xBC, CHR 0x8C, CHR 0xE8, CHR 0xAF, CHR 0xB7, CHR 0xE7, CHR 0xA8,
        CHR 0x8D, CHR 0xE5, CHR 0x90, CHR 0x8E, CHR 0xE5, CHR 0x86, CHR 0x8D, CHR 0xE8,
        CHR 0xAF, CHR 0x95]"

definition msg_rotation_error :: string where
  "msg_rotation_error = [CHR 0xE8, CHR 0xBD, CHR 0xAE, CHR 0xE8, CHR 0xAF, CHR 0xA2,
     CHR 0xE9, CHR 0x85, CHR 0x8D, CHR 0xE7, CHR 0xBD, CHR 0xAE, CHR 0xE9, CHR 0x94,
     CHR 0x99, CHR 0xE8, CHR 0xAF, CHR 0xAF] @ '': ''"

text \<open>The responses of lines 128, 218/226 and 301, and of the handler's \<^verbatim>\<open>catch\<close>.\<close>

definition url_format_response :: response where
  "url_format_response = text_response msg_url_format 325"

definition no_keys_response :: response where
  "no_keys_response = text_response msg_no_keys 326"

definition exhausted_response :: response where
  "exhausted_response = text_response msg_exhausted 429"

definition rotation_error_response :: "string \<Rightarrow> response" where
  "rotation_error_response msg = text_response (msg_rotation_error @ msg) 500"

subsection \<open>Outbound requests\<close>

text \<open>
  The body of the inbound request is a stream that can be read once. \<^verbatim>\<open>fetch\<close> reads
  the body of the request it sends, and the \<^verbatim>\<open>Request\<close> constructor refuses a stream
  that has been read (Fetch standard, "extract a body": a disturbed or locked stream is
  a \<^verbatim>\<open>TypeError\<close>). \<open>used\<close> says whether an earlier \<^verbatim>\<open>fetch\<close> of this handler sent
  \<^verbatim>\<open>request.body\<close>. The message is the runtime's.
\<close>

definition msg_body_used :: string where
  "msg_body_used =
     ''This ReadableStream is disturbed (has already been read from), and cannot be used as a body.''"

definition new_Request ::
  "bool \<Rightarrow> url \<Rightarrow> string \<Rightarrow> headers \<Rightarrow> string option \<Rightarrow> string + request" where
  "new_Request used u m hs b =
     (if b \<noteq> None \<and> used then Inl msg_body_used
      else Inr \<lparr>r_method = m, r_url = u, r_headers = hs, r_body = b\<rparr>)"

text \<open>
  \<^verbatim>\<open>url.hostname = ROUTE_MAP[service]\<close>: the setter takes a host name; it leaves the
  URL as it is when the value, converted to a string, is no host name, which is the case
  of every inherited value (the source text of a function, \<^verbatim>\<open>[object Object]\<close>).
\<close>

definition set_hostname :: "url \<Rightarrow> route option \<Rightarrow> url" where
  "set_hostname u target =
     (case target of
        Some (Host h) \<Rightarrow> u\<lparr>hostname := h\<rparr>
      | Some Inherited \<Rightarrow> u
      | None \<Rightarrow> u\<lparr>hostname := ''undefined''\<rparr>)"

text \<open>\<^verbatim>\<open>url.pathname = p\<close>: the path of an http(s) URL starts with a slash.\<close>

definition set_pathname :: "url \<Rightarrow> string \<Rightarrow> url" where
  "set_pathname u p = u\<lparr>pathname := (if startsWith p ''/'' then p else CHR ''/'' # p)\<rparr>"

text \<open>
  One upstream call, as the handler made it: the pool index of the key it carried
  (\<open>None\<close> outside rotation), the request sent, and what came back.
\<close>

record attempt =
  key_index :: "nat option"
  sent_request :: request
  outcome :: "string + response"

text \<open>\<^verbatim>\<open>serviceKeys[i]\<close>, as the header value it becomes.\<close>

definition key_at :: "json list \<Rightarrow> nat \<Rightarrow> string" where
  "key_at serviceKeys i =
     (if i < length serviceKeys then js_ToString (serviceKeys ! i) else ''undefined'')"

text \<open>
  Lines 237 to 269: the request of one rotation attempt. The keys of the pool are taken
  to be texts a header can carry, so that \<^verbatim>\<open>headers.set\<close> does not throw.
\<close>

definition rotation_request ::
  "request \<Rightarrow> string \<Rightarrow> url \<Rightarrow> json list \<Rightarrow> nat \<Rightarrow> bool \<Rightarrow> string + request" where
  "rotation_request request service u serviceKeys currentIndex used =
     (let selectedKey = key_at serviceKeys currentIndex;
          hs = (if service = ''gemini'' then
                  headers_set (r_headers request) ''x-goog-api-key'' selectedKey
                else if service = ''claude'' then
                  headers_set (r_headers request) ''x-api-key'' selectedKey
                else headers_set (r_headers request) ''Authorization'' (''Bearer '' @ selectedKey));
          modifiedUrl = (if service = ''gemini'' then
                           u\<lparr>searchParams := filter (\<lambda>kv. fst kv \<noteq> ''key'') (searchParams u)\<rparr>
                         else u)
      in new_Request used modifiedUrl (r_method request) hs (r_body request))"

text \<open>Lines 292 to 301: what the handler returns once the loop has ended.\<close>

definition after_loop :: "response option \<Rightarrow> response" where
  "after_loop lastResponse =
     (case lastResponse of
        None \<Rightarrow> exhausted_response
      | Some r \<Rightarrow>
          if status r = 429 then applyCorsHeaders (new_Response (body r) r)
          else exhausted_response)"

definition with_attempt ::
  "attempt \<Rightarrow> (string + response) \<times> attempt list \<Rightarrow> (string + response) \<times> attempt list" where
  "with_attempt a res = (fst res, a # snd res)"

text \<open>
  The loop of lines 236 to 290, followed by lines 292 to 301. The result is what the
  \<^verbatim>\<open>try\<close> block of the handler ends with (\<open>Inr\<close> the response returned, \<open>Inl\<close> the
  message of an error thrown outside the inner \<^verbatim>\<open>try\<close>) and the upstream calls in
  order. \<open>sent\<close> are the requests sent before this iteration.
\<close>

function rotation_loop ::
  "platform \<Rightarrow> request \<Rightarrow> string \<Rightarrow> url \<Rightarrow> json list \<Rightarrow> jsnum \<Rightarrow> nat \<Rightarrow> nat \<Rightarrow>
   response option \<Rightarrow> request list \<Rightarrow> (string + response) \<times> attempt list" where
  "rotation_loop P request service u serviceKeys maxRetries retryCount currentIndex
     lastResponse sent =
     (if js_less retryCount maxRetries then
        (case rotation_request request service u serviceKeys currentIndex (sent \<noteq> []) of
           Inl msg \<Rightarrow> (Inl msg, [])
         | Inr proxyRequest \<Rightarrow>
             (case upstream P sent proxyRequest of
                Inr r \<Rightarrow>
                  if status r \<noteq> 429 then
                    (Inr (applyCorsHeaders (new_Response (body r) r)),
                     [\<lparr>key_index = Some currentIndex, sent_request = proxyRequest,
                       outcome = Inr r\<rparr>])
                  else
                    with_attempt
                      \<lparr>key_index = Some currentIndex, sent_request = proxyRequest,
                       outcome = Inr r\<rparr>
                      (rotation_loop P request service u serviceKeys maxRetries
                         (Suc retryCount) ((currentIndex + 1) mod length serviceKeys)
                         (Some r) (sent @ [proxyRequest]))
              | Inl e \<Rightarrow>
                  with_attempt
                    \<lparr>key_index = Some currentIndex, sent_request = proxyRequest,
                     outcome = Inl e\<rparr>
                    (rotation_loop P request service u serviceKeys maxRetries
                       (Suc retryCount) ((currentIndex + 1) mod length serviceKeys)
                       lastResponse (sent @ [proxyRequest]))))
      else (Inr (after_loop lastResponse), []))"
  by pat_completeness auto
termination
proof (relation "measure (\<lambda>(P, request, service, u, serviceKeys, maxRetries, retryCount, rest).
                   case maxRetries of NaN \<Rightarrow> 0 | Num m \<Rightarrow> nat (m - int retryCount))")
  show "wf (measure (\<lambda>(P, request, service, u, serviceKeys, maxRetries, retryCount, rest).
                   case maxRetries of NaN \<Rightarrow> 0 | Num m \<Rightarrow> nat (m - int retryCount)))"
    by simp
qed (auto split: jsnum.splits)

subsection \<open>\<^verbatim>\<open>handleRequestWithRotation\<close>\<close>

text \<open>
  What a run of the handler amounts to: \<open>h_result\<close> is \<open>Inr\<close> the response returned or
  \<open>Inl\<close> the message of the error the handler throws to its caller; \<open>h_attempts\<close> are the
  upstream calls in order; \<open>h_db\<close> is the D1 binding afterwards.
\<close>

record handled =
  h_result :: "string + response"
  h_attempts :: "attempt list"
  h_db :: "d1 option"

text \<open>Line 230: the configured limit.\<close>

definition rotationLimit :: "env \<Rightarrow> jsnum" where
  "rotationLimit e =
     (case ROTATION_LIMIT e of
        None \<Rightarrow> Num 5
      | Some s \<Rightarrow> if s \<noteq> [] then parseInt s else Num 5)"

text \<open>Lines 213 to 305: rotation mode, \<open>u\<close> being the rewritten URL.\<close>

definition rotation_mode :: "platform \<Rightarrow> request \<Rightarrow> string \<Rightarrow> env \<Rightarrow> url \<Rightarrow> handled" where
  "rotation_mode P request service e u =
     (case vars e (toUpperCase service @ ''_KEYS'') of
        None \<Rightarrow> \<lparr>h_result = Inr no_keys_response, h_attempts = [], h_db = DB e\<rparr>
      | Some serviceKeysEnv \<Rightarrow>
          if serviceKeysEnv = [] then
            \<lparr>h_result = Inr no_keys_response, h_attempts = [], h_db = DB e\<rparr>
          else
            (case JSON_parse P serviceKeysEnv of
               Inl msg \<Rightarrow>
                 \<lparr>h_result = Inr (rotation_error_response msg), h_attempts = [], h_db = DB e\<rparr>
             | Inr (JArr serviceKeys) \<Rightarrow>
                 if serviceKeys = [] then
                   \<lparr>h_result = Inr no_keys_response, h_attempts = [], h_db = DB e\<rparr>
                 else
                   (let maxRetries = Math_min (rotationLimit e) (int (length serviceKeys))
                    in case getNextKeyIndex (DB e) service (length serviceKeys) of
                         Inl msg \<Rightarrow>
                           \<lparr>h_result = Inr (rotation_error_response msg), h_attempts = [],
                            h_db = DB e\<rparr>
                       | Inr (currentIndex, db') \<Rightarrow>
                           (case rotation_loop P request service u serviceKeys maxRetries 0
                                   currentIndex None [] of
                              (Inl msg, calls) \<Rightarrow>
                                \<lparr>h_result = Inr (rotation_error_response msg),
                                 h_attempts = calls, h_db = Some db'\<rparr>
                            | (Inr response, calls) \<Rightarrow>
                                \<lparr>h_result = Inr response, h_attempts = calls,
                                 h_db = Some db'\<rparr>))
             | Inr _ \<Rightarrow>
                 \<lparr>h_result = Inr no_keys_response, h_attempts = [], h_db = DB e\<rparr>))"

text \<open>Lines 309 to 320: one request, with the inbound headers and body.\<close>

definition pass_through :: "platform \<Rightarrow> request \<Rightarrow> env \<Rightarrow> url \<Rightarrow> handled" where
  "pass_through P request e u =
     (case new_Request False u (r_method request) (r_headers request) (r_body request) of
        Inl msg \<Rightarrow> \<lparr>h_result = Inl msg, h_attempts = [], h_db = DB e\<rparr>
      | Inr proxyRequest \<Rightarrow>
          (case upstream P [] proxyRequest of
             Inl msg \<Rightarrow>
               \<lparr>h_result = Inl msg,
                h_attempts = [\<lparr>key_index = None, sent_request = proxyRequest,
                               outcome = Inl msg\<rparr>],
                h_db = DB e\<rparr>
           | Inr upstreamResponse \<Rightarrow>
               \<lparr>h_result = Inr (applyCorsHeaders
                                  (new_Response (body upstreamResponse) upstreamResponse)),
                h_attempts = [\<lparr>key_index = None, sent_request = proxyRequest,
                               outcome = Inr upstreamResponse\<rparr>],
                h_db = DB e\<rparr>))"

text \<open>Lines 199 to 203: the URL both modes send to.\<close>

definition rewrite_url :: "url \<Rightarrow> string \<Rightarrow> url" where
  "rewrite_url u service =
     (let u1 = set_hostname u (ROUTE_MAP_get service)
      in set_pathname u1 (drop (length service + 1) (pathname u1)))"

definition handleRequestWithRotation ::
  "platform \<Rightarrow> request \<Rightarrow> string \<Rightarrow> env \<Rightarrow> handled" where
  "handleRequestWithRotation P request service e =
     (if r_method request = ''OPTIONS'' then
        \<lparr>h_result = Inr handleOptions, h_attempts = [], h_db = DB e\<rparr>
      else
        (let u = rewrite_url (r_url request) service;
             masterKey = MASTER_KEY e
         in if truthy_str masterKey \<and> extractApiKey request service = masterKey
            then rotation_mode P request service e u
            else pass_through P request e u))"

subsection \<open>The entry point \<^verbatim>\<open>fetch\<close> and the Analytics Engine\<close>

text \<open>
  A data point as \<^verbatim>\<open>logRequest\<close> writes it: \<open>indexes\<close> is the service, \<open>blobs\<close> are
  service, model and error message (or \<^verbatim>\<open>null\<close>), \<open>doubles\<close> are status and latency.
\<close>

record datapoint =
  indexes :: "string list"
  blobs :: "json list"
  doubles :: "int list"

record requestData =
  rd_service :: string
  rd_model :: json

text \<open>
  \<^verbatim>\<open>body.model\<close>: reading a property of \<^verbatim>\<open>null\<close> throws (\<open>Inl\<close>); an object yields
  the value \<^verbatim>\<open>JSON.parse\<close> kept for the key (the last one given) or \<^verbatim>\<open>undefined\<close>
  (\<open>None\<close>); every other value has no such property.
\<close>

definition get_model :: "json \<Rightarrow> string + json option" where
  "get_model v =
     (case v of
        JNull \<Rightarrow> Inl ''Cannot read properties of null''
      | JObj kvs \<Rightarrow> Inr (map_of (rev kvs) ''model'')
      | _ \<Rightarrow> Inr None)"

text \<open>
  Lines 137 to 157: the model of the request, \<^verbatim>\<open>'unknown'\<close> unless the extraction
  replaces it. \<^verbatim>\<open>clonedRequest.json()\<close> parses the text of the body, the empty text
  for a request without body; its failure is replaced by \<^verbatim>\<open>{}\<close>, and an error thrown
  later is caught by the \<^verbatim>\<open>try\<close> around the block.
\<close>

definition extract_model :: "platform \<Rightarrow> env \<Rightarrow> request \<Rightarrow> string \<Rightarrow> string list \<Rightarrow> json" where
  "extract_model P e request service pathSegments =
     (if LOGS e \<and> r_method request = ''POST'' then
        (if service = ''gemini'' then
           (if 4 \<le> length pathSegments \<and> pathSegments ! 2 = ''models'' then
              (let m = hd (split CHR '':'' (pathSegments ! 3))
               in if m \<noteq> [] then JStr m else JStr ''unknown'')
            else JStr ''unknown'')
         else
           (let parsed = (case JSON_parse P (case r_body request of None \<Rightarrow> [] | Some b \<Rightarrow> b) of
                            Inl _ \<Rightarrow> JObj []
                          | Inr v \<Rightarrow> v)
            in case get_model parsed of
                 Inl _ \<Rightarrow> JStr ''unknown''
               | Inr None \<Rightarrow> JStr ''unknown''
               | Inr (Some m) \<Rightarrow> if truthy m then m else JStr ''unknown''))
      else JStr ''unknown'')"

text \<open>
  \<^verbatim>\<open>logRequest\<close>: the data points written, none without the binding. \<open>now\<close> is the
  clock when the function runs.
\<close>

definition logRequest ::
  "env \<Rightarrow> requestData \<Rightarrow> response \<Rightarrow> int \<Rightarrow> int \<Rightarrow> string option \<Rightarrow> datapoint list" where
  "logRequest e rd response startTime now error =
     (if \<not> LOGS e then []
      else
        (let latencyMs = now - startTime;
             service = (if rd_service rd \<noteq> [] then rd_service rd else ''unknown'');
             model = (if truthy (rd_model rd) then rd_model rd else JStr ''unknown'')
         in [\<lparr>indexes = [service],
              blobs = [JStr service, model,
                       (case error of None \<Rightarrow> JNull | Some msg \<Rightarrow> JStr msg)],
              doubles = [int (status response), latencyMs]\<rparr>]))"

text \<open>
  A run of \<^verbatim>\<open>fetch\<close>: the response the caller receives, the upstream calls made, the
  data points handed to the Analytics Engine, and the D1 binding afterwards.
\<close>

record served =
  s_response :: response
  s_attempts :: "attempt list"
  s_logged :: "datapoint list"
  s_db :: "d1 option"

text \<open>
  \<^verbatim>\<open>fetch(request, env, ctx)\<close>. \<open>startTime\<close> and \<open>now\<close> are the two readings of the
  clock. The URL of an inbound request always parses, so line 120 cannot throw.
\<close>

definition worker_fetch :: "platform \<Rightarrow> request \<Rightarrow> env \<Rightarrow> int \<Rightarrow> int \<Rightarrow> served" where
  "worker_fetch P request e startTime now =
     (case filter (\<lambda>seg. seg \<noteq> []) (split CHR ''/'' (pathname (r_url request))) of
        [] \<Rightarrow>
          \<lparr>s_response = url_format_response, s_attempts = [], s_logged = [], s_db = DB e\<rparr>
      | service # rest \<Rightarrow>
          if ROUTE_MAP_get service = None then
            \<lparr>s_response = url_format_response, s_attempts = [], s_logged = [], s_db = DB e\<rparr>
          else
            (let rd = \<lparr>rd_service = service,
                       rd_model = extract_model P e request service (service # rest)\<rparr>;
                 h = handleRequestWithRotation P request service e
             in case h_result h of
                  Inr response \<Rightarrow>
                    \<lparr>s_response = response, s_attempts = h_attempts h,
                     s_logged = logRequest e rd response startTime now None,
                     s_db = h_db h\<rparr>
                | Inl msg \<Rightarrow>
                    (let response =
                           text_response
                             (if msg \<noteq> [] then msg else ''An unexpected error occurred.'') 500
                     in \<lparr>s_response = response, s_attempts = h_attempts h,
                         s_logged = logRequest e rd response startTime now (Some msg),
                         s_db = h_db h\<rparr>)))"

text \<open>
  The premise of rotation mode (lines 209 and 212): a master key is configured and the
  key the request carries is that key.
\<close>

definition rotation_selected :: "env \<Rightarrow> request \<Rightarrow> string \<Rightarrow> bool" where
  "rotation_selected e request service =
     (truthy_str (MASTER_KEY e) \<and> extractApiKey request service = MASTER_KEY e)"

text \<open>How many more iterations the loop of line 236 can make.\<close>

definition remaining :: "jsnum \<Rightarrow> nat \<Rightarrow> nat" where
  "remaining maxRetries retryCount =
     (case maxRetries of NaN \<Rightarrow> 0 | Num m \<Rightarrow> nat (m - int retryCount))"

text \<open>
  What rotation mode returns for the outcome of the loop: an error thrown in the
  \<^verbatim>\<open>try\<close> block becomes the response of line 304.
\<close>

definition loop_outcome :: "(string + response) \<times> attempt list \<Rightarrow> d1 \<Rightarrow> handled" where
  "loop_outcome res db' =
     \<lparr>h_result = Inr (case fst res of Inl msg \<Rightarrow> rotation_error_response msg | Inr r \<Rightarrow> r),
      h_attempts = snd res, h_db = Some db'\<rparr>"

subsection \<open>An example deployment\<close>

text \<open>
  Concrete values for the instances below: a pool of three OpenAI keys, the master key
  \<^verbatim>\<open>M\<close>, a counter that stands at 1, and a \<^verbatim>\<open>JSON.parse\<close> that knows the texts used
  here.
\<close>

definition example_pool :: string where
  "example_pool = ''[\"k1\",\"k2\",\"k3\"]''"

definition example_JSON_parse :: "string \<Rightarrow> string + json" where
  "example_JSON_parse s =
     (if s = example_pool then Inr (JArr [JStr ''k1'', JStr ''k2'', JStr ''k3''])
      else if s = ''[]'' then Inr (JArr [])
      else if s = ''{\"model\":\"gpt-4o\"}'' then Inr (JObj [(''model'', JStr ''gpt-4o'')])
      else Inl ''Unexpected token'')"

definition busy_upstream :: "request list \<Rightarrow> request \<Rightarrow> string + response" where
  "busy_upstream sent rq =
     Inr \<lparr>status = 429, headers = [], body = headers_get (r_headers rq) ''Authorization''\<rparr>"

definition busy :: platform where
  "busy = \<lparr>upstream = busy_upstream, JSON_parse = example_JSON_parse\<rparr>"

definition gateway_url :: "string \<Rightarrow> url" where
  "gateway_url path =
     \<lparr>protocol = ''https:'', hostname = ''gateway.example'', port = [], pathname = path,
      searchParams = []\<rparr>"

definition example_request :: "string \<Rightarrow> string \<Rightarrow> string option \<Rightarrow> request" where
  "example_request m path b =
     \<lparr>r_method = m, r_url = gateway_url path,
      r_headers = [(''authorization'', ''Bearer M'')], r_body = b\<rparr>"

definition example_env :: "string option \<Rightarrow> env" where
  "example_env limit =
     \<lparr>MASTER_KEY = Some ''M'', ROTATION_LIMIT = limit,
      vars = (\<lambda>name. if name = ''OPENAI_KEYS'' then Some example_pool else None),
      LOGS = True,
      DB = Some \<lparr>rows = [(''openai'', 1)], fault = None\<rparr>\<rparr>"

definition healthy_upstream :: "request list \<Rightarrow> request \<Rightarrow> string + response" where
  "healthy_upstream sent rq =
     Inr \<lparr>status = 200, headers = [(''content-type'', ''application/json'')],
          body = Some ''{}''\<rparr>"

definition healthy :: platform where
  "healthy = \<lparr>upstream = healthy_upstream, JSON_parse = example_JSON_parse\<rparr>"

text \<open>An upstream that answers with an \<^verbatim>\<open>Access-Control-Allow-Origin\<close> of its own.\<close>

definition own_cors_upstream :: "request list \<Rightarrow> request \<Rightarrow> string + response" where
  "own_cors_upstream sent rq =
     Inr \<lparr>status = 200,
          headers = [(''content-type'', ''application/json''),
                     (''access-control-allow-origin'', ''https://app.example'')],
          body = Some ''{}''\<rparr>"

definition own_cors :: platform where
  "own_cors = \<lparr>upstream = own_cors_upstream, JSON_parse = example_JSON_parse\<rparr>"

definition flaky_upstream :: "request list \<Rightarrow> request \<Rightarrow> string + response" where
  "flaky_upstream sent rq =
     (if sent = [] then Inr \<lparr>status = 429, headers = [], body = Some ''slow down''\<rparr>
      else Inr \<lparr>status = 200, headers = [], body = Some ''ok''\<rparr>)"

definition flaky :: platform where
  "flaky = \<lparr>upstream = flaky_upstream, JSON_parse = example_JSON_parse\<rparr>"

definition passthrough_env :: env where
  "passthrough_env =
     \<lparr>MASTER_KEY = None, ROTATION_LIMIT = None, vars = (\<lambda>name. None), LOGS = True,
      DB = None\<rparr>"

text \<open>The example deployment without any pool variable.\<close>

definition no_pool_env :: env where
  "no_pool_env = (example_env None)\<lparr>vars := (\<lambda>name. None)\<rparr>"

text \<open>A request that reaches the worker on port 8443.\<close>

definition port_request :: request where
  "port_request =
     (example_request ''GET'' ''/openai/v1/models'' None)
       \<lparr>r_url := (gateway_url ''/openai/v1/models'')\<lparr>port := ''8443''\<rparr>\<rparr>"

subsection \<open>Notions the claims use\<close>

text \<open>The authority of a URL, as its \<^verbatim>\<open>host\<close> property gives it: host name and port.\<close>

definition url_host :: "url \<Rightarrow> string" where
  "url_host u = (if port u = [] then hostname u else hostname u @ '':'' @ port u)"

text \<open>The three headers of \<^verbatim>\<open>applyCorsHeaders\<close>, with the values it sets.\<close>

definition permissive_cors :: "response \<Rightarrow> bool" where
  "permissive_cors r =
     (headers_get (headers r) ''Access-Control-Allow-Origin'' = Some ''*'' \<and>
      headers_get (headers r) ''Access-Control-Allow-Methods'' = Some allow_methods \<and>
      headers_get (headers r) ''Access-Control-Allow-Headers'' = Some allow_headers)"

text \<open>
  A response the worker builds from a text of its own (lines 128, 172, 218, 226, 301 and
  304): a text body, the content type, and one of the four statuses.
\<close>

definition own_response :: "response \<Rightarrow> bool" where
  "own_response r =
     (headers r = [(''content-type'', ''text/plain;charset=UTF-8'')] \<and> body r \<noteq> None \<and>
      status r \<in> set [325, 326, 429, 500])"

text \<open>
  The last upstream response among the calls made, \<open>lr\<close> when no call was answered:
  what the variable \<^verbatim>\<open>lastResponse\<close> holds after these calls.
\<close>

definition last_response :: "response option \<Rightarrow> attempt list \<Rightarrow> response option" where
  "last_response lr calls =
     foldl (\<lambda>acc a. case outcome a of Inr r \<Rightarrow> Some r | Inl _ \<Rightarrow> acc) lr calls"
section \<open>Properties\<close>

subsection \<open>The retry loop, one iteration at a time\<close>

lemma snd_with_attempt [simp]: "snd (with_attempt a res) = a # snd res"
  by (simp add: with_attempt_def)

lemma fst_with_attempt [simp]: "fst (with_attempt a res) = fst res"
  by (simp add: with_attempt_def)

lemma loop_stop:
  "\<not> js_less retryCount maxRetries \<Longrightarrow>
   rotation_loop P request service u serviceKeys maxRetries retryCount currentIndex
     lastResponse sent = (Inr (after_loop lastResponse), [])"
  by simp

lemma loop_throw:
  "js_less retryCount maxRetries \<Longrightarrow>
   rotation_request request service u serviceKeys currentIndex (sent \<noteq> []) = Inl msg \<Longrightarrow>
   rotation_loop P request service u serviceKeys maxRetries retryCount currentIndex
     lastResponse sent = (Inl msg, [])"
  by simp

lemma loop_return:
  "js_less retryCount maxRetries \<Longrightarrow>
   rotation_request request service u serviceKeys currentIndex (sent \<noteq> []) = Inr rq \<Longrightarrow>
   upstream P sent rq = Inr r \<Longrightarrow> status r \<noteq> 429 \<Longrightarrow>
   rotation_loop P request service u serviceKeys maxRetries retryCount currentIndex
     lastResponse sent =
   (Inr (applyCorsHeaders (new_Response (body r) r)),
    [\<lparr>key_index = Some currentIndex, sent_request = rq, outcome = Inr r\<rparr>])"
  by simp

lemma loop_429:
  "js_less retryCount maxRetries \<Longrightarrow>
   rotation_request request service u serviceKeys currentIndex (sent \<noteq> []) = Inr rq \<Longrightarrow>
   upstream P sent rq = Inr r \<Longrightarrow> status r = 429 \<Longrightarrow>
   rotation_loop P request service u serviceKeys maxRetries retryCount currentIndex
     lastResponse sent =
   with_attempt \<lparr>key_index = Some currentIndex, sent_request = rq, outcome = Inr r\<rparr>
     (rotation_loop P request service u serviceKeys maxRetries (Suc retryCount)
        ((currentIndex + 1) mod length serviceKeys) (Some r) (sent @ [rq]))"
  by simp

lemma loop_failed:
  "js_less retryCount maxRetries \<Longrightarrow>
   rotation_request request service u serviceKeys currentIndex (sent \<noteq> []) = Inr rq \<Longrightarrow>
   upstream P sent rq = Inl err \<Longrightarrow>
   rotation_loop P request service u serviceKeys maxRetries retryCount currentIndex
     lastResponse sent =
   with_attempt \<lparr>key_index = Some currentIndex, sent_request = rq, outcome = Inl err\<rparr>
     (rotation_loop P request service u serviceKeys maxRetries (Suc retryCount)
        ((currentIndex + 1) mod length serviceKeys) lastResponse (sent @ [rq]))"
  by simp



declare rotation_loop.simps [simp del]

lemma remaining_0: "remaining maxRetries retryCount = 0 \<longleftrightarrow> \<not> js_less retryCount maxRetries"
  by (cases maxRetries) (auto simp: remaining_def)

lemma remaining_Suc:
  "remaining maxRetries retryCount = Suc k \<Longrightarrow> remaining maxRetries (Suc retryCount) = k"
  by (cases maxRetries) (auto simp: remaining_def)

lemma loop_induct [case_names stop throw return retry429 failed]:
  fixes P :: platform and request :: request and u :: url
  assumes stop: "\<And>retryCount currentIndex lastResponse sent.
            \<not> js_less retryCount maxRetries \<Longrightarrow> Q retryCount currentIndex lastResponse sent"
      and throw: "\<And>retryCount currentIndex lastResponse sent msg.
            js_less retryCount maxRetries \<Longrightarrow>
            rotation_request request service u serviceKeys currentIndex (sent \<noteq> []) = Inl msg \<Longrightarrow>
            Q retryCount currentIndex lastResponse sent"
      and return: "\<And>retryCount currentIndex lastResponse sent rq r.
            js_less retryCount maxRetries \<Longrightarrow>
            rotation_request request service u serviceKeys currentIndex (sent \<noteq> []) = Inr rq \<Longrightarrow>
            upstream P sent rq = Inr r \<Longrightarrow> status r \<noteq> 429 \<Longrightarrow>
            Q retryCount currentIndex lastResponse sent"
      and retry429: "\<And>retryCount currentIndex lastResponse sent rq r.
            js_less retryCount maxRetries \<Longrightarrow>
            rotation_request request service u serviceKeys currentIndex (sent \<noteq> []) = Inr rq \<Longrightarrow>
            upstream P sent rq = Inr r \<Longrightarrow> status r = 429 \<Longrightarrow>
            Q (Suc retryCount) ((currentIndex + 1) mod length serviceKeys) (Some r) (sent @ [rq]) \<Longrightarrow>
            Q retryCount currentIndex lastResponse sent"
      and failed: "\<And>retryCount currentIndex lastResponse sent rq err.
            js_less retryCount maxRetries \<Longrightarrow>
            rotation_request request service u serviceKeys currentIndex (sent \<noteq> []) = Inr rq \<Longrightarrow>
            upstream P sent rq = Inl err \<Longrightarrow>
            Q (Suc retryCount) ((currentIndex + 1) mod length serviceKeys) lastResponse (sent @ [rq]) \<Longrightarrow>
            Q retryCount currentIndex lastResponse sent"
  shows "Q retryCount currentIndex lastResponse (sent :: request list)"
proof -
  have "\<And>rc ci lr (st :: request list). remaining maxRetries rc = k \<Longrightarrow> Q rc ci lr st" for k
  proof (induction k)
    case 0
    then show ?case by (simp add: remaining_0 stop)
  next
    case (Suc k rc ci lr st)
    then have less: "js_less rc maxRetries"
      using remaining_0 [of maxRetries rc] by simp
    note next_k = remaining_Suc [OF Suc.prems]
    show ?case
    proof (cases "rotation_request request service u serviceKeys ci (st \<noteq> [])")
      case (Inl msg)
      with less show ?thesis by (rule throw)
    next
      case rq: (Inr proxyRequest)
      show ?thesis
      proof (cases "upstream P st proxyRequest")
        case (Inl e)
        from less rq Inl Suc.IH [OF next_k] show ?thesis by (rule failed)
      next
        case (Inr r)
        show ?thesis
        proof (cases "status r = 429")
          case True
          from less rq Inr True Suc.IH [OF next_k] show ?thesis by (rule retry429)
        next
          case False
          with less rq Inr show ?thesis by (rule return)
        qed
      qed
    qed
  qed
  then show ?thesis by simp
qed

lemma loop_length:
  fixes P :: platform
  shows "length (snd (rotation_loop P request service u serviceKeys maxRetries retryCount
      currentIndex lastResponse sent)) \<le> remaining maxRetries retryCount"
proof (induction retryCount currentIndex lastResponse sent
    rule: loop_induct [where P = P and request = request and service = service and u = u
      and serviceKeys = serviceKeys and maxRetries = maxRetries])
  case (stop retryCount currentIndex lastResponse sent)
  then show ?case by (simp add: loop_stop)
next
  case (throw retryCount currentIndex lastResponse sent msg)
  then show ?case by (simp add: loop_throw)
next
  case (return retryCount currentIndex lastResponse sent rq r)
  then show ?case using remaining_0 [of maxRetries retryCount] by (simp add: loop_return)
next
  case (retry429 retryCount currentIndex lastResponse sent rq r)
  then show ?case
    by (cases maxRetries) (auto simp: loop_429 remaining_def)
next
  case (failed retryCount currentIndex lastResponse sent rq err)
  then show ?case
    by (cases maxRetries) (auto simp: loop_failed remaining_def)
qed

lemma loop_calls:
  fixes P :: platform
  assumes "currentIndex < length serviceKeys" "j < length (snd (rotation_loop P request service u serviceKeys maxRetries retryCount
      currentIndex lastResponse sent))"
  shows "key_index (snd (rotation_loop P request service u serviceKeys maxRetries retryCount
      currentIndex lastResponse sent) ! j) = Some ((currentIndex + j) mod length serviceKeys) \<and>
    rotation_request request service u serviceKeys ((currentIndex + j) mod length serviceKeys)
      (sent \<noteq> [] \<or> j \<noteq> 0) =
    Inr (sent_request (snd (rotation_loop P request service u serviceKeys maxRetries retryCount
      currentIndex lastResponse sent) ! j))"
  using assms
proof (induction retryCount currentIndex lastResponse sent arbitrary: j
    rule: loop_induct [where P = P and request = request and service = service and u = u
      and serviceKeys = serviceKeys and maxRetries = maxRetries])
  case (stop retryCount currentIndex lastResponse sent)
  then show ?case by (simp add: loop_stop)
next
  case (throw retryCount currentIndex lastResponse sent msg)
  then show ?case by (simp add: loop_throw)
next
  case (return retryCount currentIndex lastResponse sent rq r)
  then show ?case by (simp add: loop_return)
next
  case (retry429 retryCount currentIndex lastResponse sent rq r)
  show ?case
  proof (cases j)
    case 0
    with retry429 show ?thesis by (simp add: loop_429)
  next
    case (Suc j')
    have lt: "(currentIndex + 1) mod length serviceKeys < length serviceKeys"
      using retry429.prems(1) by (cases serviceKeys) simp_all
    have "j' < length (snd (rotation_loop P request service u serviceKeys maxRetries (Suc retryCount)
        ((currentIndex + 1) mod length serviceKeys) (Some r) (sent @ [rq])))"
      using retry429.prems(2) retry429.hyps Suc by (simp add: loop_429)
    from retry429.IH [OF lt this] retry429.hyps Suc show ?thesis
      by (simp add: loop_429 mod_add_left_eq)
  qed
next
  case (failed retryCount currentIndex lastResponse sent rq err)
  show ?case
  proof (cases j)
    case 0
    with failed show ?thesis by (simp add: loop_failed)
  next
    case (Suc j')
    have lt: "(currentIndex + 1) mod length serviceKeys < length serviceKeys"
      using failed.prems(1) by (cases serviceKeys) simp_all
    have "j' < length (snd (rotation_loop P request service u serviceKeys maxRetries (Suc retryCount)
        ((currentIndex + 1) mod length serviceKeys) lastResponse (sent @ [rq])))"
      using failed.prems(2) failed.hyps Suc by (simp add: loop_failed)
    from failed.IH [OF lt this] failed.hyps Suc show ?thesis
      by (simp add: loop_failed mod_add_left_eq)
  qed
qed

subsection \<open>The rotation counter\<close>

lemma js_rem_bounds:
  assumes "0 < b"
  shows "- b < js_rem a b \<and> js_rem a b < b"
proof -
  have ab: "\<bar>b\<bar> = b" using assms by simp
  have r: "0 \<le> \<bar>a\<bar> mod b" "\<bar>a\<bar> mod b < b" using assms by simp_all
  have "js_rem a b = - (\<bar>a\<bar> mod b) \<or> js_rem a b = 0 \<or> js_rem a b = \<bar>a\<bar> mod b"
    unfolding js_rem_def ab by (cases "a < 0"; cases "a = 0") (simp_all add: sgn_if)
  with r assms show ?thesis by linarith
qed

lemma js_rem_nonneg: "0 \<le> a \<Longrightarrow> 0 < b \<Longrightarrow> js_rem a b = a mod b"
  by (cases "a = 0") (simp_all add: js_rem_def)

lemma index_of_next:
  assumes n: "0 < n" and x: "- n < x" "x < n" "x \<noteq> 0"
  shows "nat (js_rem (x - 1 + n) n) < nat n" and "2 \<le> n \<Longrightarrow> js_rem (x - 1 + n) n \<noteq> n - 1"
proof -
  have nn: "0 \<le> x - 1 + n" using x by simp
  then have eq: "js_rem (x - 1 + n) n = (x - 1 + n) mod n" using n by (simp add: js_rem_nonneg)
  show "nat (js_rem (x - 1 + n) n) < nat n" using n by (simp add: eq)
  show "js_rem (x - 1 + n) n \<noteq> n - 1" if "2 \<le> n"
  proof (cases "0 < x")
    case True
    then have "(x - 1) mod n = x - 1" using x n by (intro mod_pos_pos_trivial) simp_all
    then have "(x - 1 + n) mod n = x - 1" by simp
    then show ?thesis using x eq by simp
  next
    case False
    then have "x < 0" using x by simp
    then have "(x - 1 + n) mod n = x - 1 + n" using x n by (intro mod_pos_pos_trivial) simp_all
    then show ?thesis using \<open>x < 0\<close> eq by simp
  qed
qed

lemma getNextKeyIndex_in_range:
  assumes "0 < keysCount" "getNextKeyIndex db service keysCount = Inr (i, db')"
  shows "i < keysCount"
proof -
  have one: "nat (js_rem (1 - 1 + int keysCount) (int keysCount)) < keysCount"
    using assms(1) by (simp add: js_rem_nonneg)
  have other: "nat (js_rem (x - 1 + int keysCount) (int keysCount)) < keysCount"
    if "x = js_rem w (int keysCount)" "x \<noteq> 0" for x w
    using index_of_next(1) [of "int keysCount" x] js_rem_bounds [of "int keysCount" w] assms(1) that
    by simp
  from assms(2) show ?thesis
    using one other
    by (auto simp: getNextKeyIndex_def upsert_def Let_def split: option.splits sum.splits if_splits)
qed

lemma getNextKeyIndex_never_last:
  assumes "2 \<le> keysCount" "getNextKeyIndex db service keysCount = Inr (i, db')"
  shows "i \<noteq> keysCount - 1"
proof -
  have n: "0 < int keysCount" "2 \<le> int keysCount" using assms(1) by simp_all
  have one: "nat (js_rem (1 - 1 + int keysCount) (int keysCount)) \<noteq> keysCount - 1"
    using assms(1) by (simp add: js_rem_nonneg)
  have other: "nat (js_rem (x - 1 + int keysCount) (int keysCount)) \<noteq> keysCount - 1"
    if "x = js_rem w (int keysCount)" "x \<noteq> 0" for x w
  proof -
    have b: "- int keysCount < x" "x < int keysCount"
      using js_rem_bounds [OF n(1), of w] that by simp_all
    have "0 \<le> x - 1 + int keysCount" using b by simp
    then have "0 \<le> js_rem (x - 1 + int keysCount) (int keysCount)" using n by (simp add: js_rem_nonneg)
    moreover have "js_rem (x - 1 + int keysCount) (int keysCount) \<noteq> int keysCount - 1"
      using index_of_next(2) [OF n(1) b that(2) n(2)] .
    ultimately show ?thesis using assms(1) by (simp add: nat_eq_iff)
  qed
  from assms(2) show ?thesis
    using one other
    by (auto simp: getNextKeyIndex_def upsert_def Let_def split: option.splits sum.splits if_splits)
qed

text \<open>
  Claim C2 says that each call of \<^verbatim>\<open>getNextKeyIndex\<close> returns the post-increment value
  of the counter minus one, wrapped modulo the pool size, and that \<open>n\<close> consecutive calls
  for one provider walk through all of \<open>0, ..., n - 1\<close>.

  The code does not: four consecutive calls for a pool of three keys, starting from an
  empty table, return the indices 0, 1, 0, 0. The third call brings the counter to 0;
  \<^verbatim>\<open>results[0]?.next_index || 1\<close> reads that 0 as a missing value and replaces it by 1,
  so the index is 0 where the claim has \<open>(0 - 1) mod 3 = 2\<close>. By
  \<open>getNextKeyIndex_never_last\<close> no state of the table makes a pool of two or more keys
  start at its last key.
\<close>

theorem getNextKeyIndex_four_calls:
  "getNextKeyIndex (Some empty_db) ''openai'' 3
     = Inr (0, \<lparr>rows = [(''openai'', 1)], fault = None\<rparr>) \<and>
   getNextKeyIndex (Some \<lparr>rows = [(''openai'', 1)], fault = None\<rparr>) ''openai'' 3
     = Inr (1, \<lparr>rows = [(''openai'', 2)], fault = None\<rparr>) \<and>
   getNextKeyIndex (Some \<lparr>rows = [(''openai'', 2)], fault = None\<rparr>) ''openai'' 3
     = Inr (0, \<lparr>rows = [(''openai'', 0)], fault = None\<rparr>) \<and>
   getNextKeyIndex (Some \<lparr>rows = [(''openai'', 0)], fault = None\<rparr>) ''openai'' 3
     = Inr (0, \<lparr>rows = [(''openai'', 1)], fault = None\<rparr>)"
  by (simp add: getNextKeyIndex_def upsert_def js_rem_def empty_db_def)

subsection \<open>Evaluation\<close>

lemmas js_defs =
  truthy_str_def startsWith_def toUpperCase_def toLowerCase_def lower_letters_def
  upper_letters_def headers_get_def headers_has_def headers_set_def parseInt_def is_space_def
  wide_spaces_def
  digit_val_def js_rem_def

lemmas worker_defs =
  worker_fetch_def handleRequestWithRotation_def rotation_mode_def pass_through_def
  rewrite_url_def set_hostname_def set_pathname_def ROUTE_MAP_get_def ROUTE_MAP_def
  Object_prototype_def extractApiKey_def rotationLimit_def getNextKeyIndex_def upsert_def
  rotation_request_def key_at_def new_Request_def after_loop_def applyCorsHeaders_def
  new_Response_def logRequest_def extract_model_def get_model_def text_response_def
  exhausted_response_def no_keys_response_def url_format_response_def
  rotation_error_response_def rotation_selected_def with_attempt_def
  rotation_loop.simps

lemmas example_defs =
  example_pool_def example_JSON_parse_def busy_upstream_def busy_def gateway_url_def
  example_request_def example_env_def healthy_upstream_def healthy_def own_cors_upstream_def
  own_cors_def flaky_upstream_def flaky_def passthrough_env_def no_pool_env_def port_request_def

subsection \<open>Rotation mode\<close>

lemma handle_rotation:
  "r_method request \<noteq> ''OPTIONS'' \<Longrightarrow> rotation_selected e request service \<Longrightarrow>
   handleRequestWithRotation P request service e =
   rotation_mode P request service e (rewrite_url (r_url request) service)"
  by (simp add: handleRequestWithRotation_def rotation_selected_def Let_def)

lemma handle_pass_through:
  "r_method request \<noteq> ''OPTIONS'' \<Longrightarrow> \<not> rotation_selected e request service \<Longrightarrow>
   handleRequestWithRotation P request service e =
   pass_through P request e (rewrite_url (r_url request) service)"
  by (auto simp: handleRequestWithRotation_def rotation_selected_def Let_def)

lemma rotation_mode_pool:
  assumes "vars e (toUpperCase service @ ''_KEYS'') = Some pool" "pool \<noteq> []"
    "JSON_parse P pool = Inr (JArr serviceKeys)" "serviceKeys \<noteq> []"
  shows "rotation_mode P request service e u =
    (case getNextKeyIndex (DB e) service (length serviceKeys) of
       Inl msg \<Rightarrow> \<lparr>h_result = Inr (rotation_error_response msg), h_attempts = [], h_db = DB e\<rparr>
     | Inr (currentIndex, db') \<Rightarrow>
         loop_outcome
           (rotation_loop P request service u serviceKeys
              (Math_min (rotationLimit e) (int (length serviceKeys))) 0 currentIndex None [])
           db')"
  using assms
  by (auto simp: rotation_mode_def loop_outcome_def Let_def split: sum.splits prod.splits)

text \<open>
  The number of upstream calls of rotation mode is bounded by the number of iterations
  the loop condition allows, and the request of an iteration carries the key of its
  index in the provider's header.
\<close>

lemma rotation_calls_bound:
  fixes P :: platform
  assumes "r_method request \<noteq> ''OPTIONS''"
    and "rotation_selected e request service"
    and "vars e (toUpperCase service @ ''_KEYS'') = Some pool" and "pool \<noteq> []"
    and "JSON_parse P pool = Inr (JArr serviceKeys)" and "serviceKeys \<noteq> []"
  shows "length (h_attempts (handleRequestWithRotation P request service e))
           \<le> remaining (Math_min (rotationLimit e) (int (length serviceKeys))) 0"
proof -
  let ?n = "length serviceKeys"
  let ?u = "rewrite_url (r_url request) service"
  let ?h = "handleRequestWithRotation P request service e"
  have h: "?h = rotation_mode P request service e ?u"
    using assms(1,2) by (rule handle_rotation)
  note mode = rotation_mode_pool [OF assms(3-6), of request ?u]
  show ?thesis
  proof (cases "getNextKeyIndex (DB e) service ?n")
    case (Inl msg)
    then show ?thesis by (simp add: h mode)
  next
    case (Inr p)
    obtain start db' where p: "p = (start, db')" by (cases p)
    show ?thesis
      using loop_length [of P request service ?u serviceKeys
          "Math_min (rotationLimit e) (int ?n)" 0 start None "[]"]
      by (simp add: h mode Inr p loop_outcome_def)
  qed
qed

lemma map_of_filter_key: "map_of (filter (\<lambda>kv. fst kv \<noteq> k) ps) k = None"
  by (induction ps) auto

lemma rotation_request_sent:
  assumes "rotation_request request service u serviceKeys i used = Inr rq"
    and "i < length serviceKeys"
  shows "r_method rq = r_method request"
    and "r_body rq = r_body request"
    and "r_url rq = (if service = ''gemini''
           then u\<lparr>searchParams := filter (\<lambda>kv. fst kv \<noteq> ''key'') (searchParams u)\<rparr> else u)"
    and "r_headers rq = headers_set (r_headers request)
           (if service = ''gemini'' then ''x-goog-api-key''
            else if service = ''claude'' then ''x-api-key'' else ''Authorization'')
           (if service = ''gemini'' \<or> service = ''claude'' then js_ToString (serviceKeys ! i)
            else ''Bearer '' @ js_ToString (serviceKeys ! i))"
    and "headers_get (r_headers rq)
           (if service = ''gemini'' then ''x-goog-api-key''
            else if service = ''claude'' then ''x-api-key'' else ''Authorization'')
         = Some (if service = ''gemini'' \<or> service = ''claude'' then js_ToString (serviceKeys ! i)
                 else ''Bearer '' @ js_ToString (serviceKeys ! i))"
proof -
  from assms have rq: "rq = \<lparr>r_method = r_method request,
      r_url = (if service = ''gemini''
           then u\<lparr>searchParams := filter (\<lambda>kv. fst kv \<noteq> ''key'') (searchParams u)\<rparr> else u),
      r_headers = headers_set (r_headers request)
           (if service = ''gemini'' then ''x-goog-api-key''
            else if service = ''claude'' then ''x-api-key'' else ''Authorization'')
           (if service = ''gemini'' \<or> service = ''claude'' then js_ToString (serviceKeys ! i)
            else ''Bearer '' @ js_ToString (serviceKeys ! i)),
      r_body = r_body request\<rparr>"
    by (auto simp: rotation_request_def new_Request_def key_at_def Let_def split: if_splits)
  show "r_method rq = r_method request" by (simp add: rq)
  show "r_body rq = r_body request" by (simp add: rq)
  show "r_url rq = (if service = ''gemini''
           then u\<lparr>searchParams := filter (\<lambda>kv. fst kv \<noteq> ''key'') (searchParams u)\<rparr> else u)"
    by (simp add: rq)
  show "r_headers rq = headers_set (r_headers request)
           (if service = ''gemini'' then ''x-goog-api-key''
            else if service = ''claude'' then ''x-api-key'' else ''Authorization'')
           (if service = ''gemini'' \<or> service = ''claude'' then js_ToString (serviceKeys ! i)
            else ''Bearer '' @ js_ToString (serviceKeys ! i))"
    by (simp add: rq)
  show "headers_get (r_headers rq)
           (if service = ''gemini'' then ''x-goog-api-key''
            else if service = ''claude'' then ''x-api-key'' else ''Authorization'')
         = Some (if service = ''gemini'' \<or> service = ''claude'' then js_ToString (serviceKeys ! i)
                 else ''Bearer '' @ js_ToString (serviceKeys ! i))"
    by (simp add: rq headers_get_def headers_set_def update_conv')
qed

text \<open>
  Claim C1 says that in rotation mode, with a non-empty pool of \<open>n\<close> keys and the
  configured limit (5 when \<^verbatim>\<open>ROTATION_LIMIT\<close> is unset), the keys are tried from the
  index \<^verbatim>\<open>getNextKeyIndex\<close> returned onwards, one step modulo \<open>n\<close> per attempt, and that
  the number of upstream calls is at most \<open>min limit n\<close>, a limit above \<open>n\<close> being
  clamped.

  The bound fails for a limit below 0: with \<^verbatim>\<open>ROTATION_LIMIT = '-1'\<close> line 230 reads
  the limit \<open>-1\<close>, \<^verbatim>\<open>Math.min\<close> gives \<open>-1\<close>, the loop makes no call, and 0 is not at
  most \<open>min (-1) 3\<close>.
\<close>

theorem rotation_limit_negative_counterexample:
  "rotation_selected (example_env (Some ''-1''))
     (example_request ''GET'' ''/openai/v1/models'' None) ''openai'' \<and>
   vars (example_env (Some ''-1'')) (toUpperCase ''openai'' @ ''_KEYS'') = Some example_pool \<and>
   JSON_parse busy example_pool = Inr (JArr [JStr ''k1'', JStr ''k2'', JStr ''k3'']) \<and>
   parseInt ''-1'' = Num (- 1) \<and>
   rotationLimit (example_env (Some ''-1'')) = Num (- 1) \<and>
   h_attempts (handleRequestWithRotation busy
     (example_request ''GET'' ''/openai/v1/models'' None) ''openai''
     (example_env (Some ''-1''))) = [] \<and>
   \<not> int (length (h_attempts (handleRequestWithRotation busy
         (example_request ''GET'' ''/openai/v1/models'' None) ''openai''
         (example_env (Some ''-1''))))) \<le> min (- 1) (int (length [JStr ''k1'', JStr ''k2'', JStr ''k3'']))"
  by (simp add: worker_defs js_defs example_defs Let_def)

text \<open>
  Claim C1, amended. In rotation mode with a non-empty pool of \<open>n\<close> keys:
  when \<^verbatim>\<open>ROTATION_LIMIT\<close> is unset or empty the handler makes at most \<open>min 5 n\<close>
  upstream calls; when it is a non-empty text that \<^verbatim>\<open>parseInt\<close> reads as \<open>limit\<close>, at
  most \<open>max 0 (min limit n)\<close>, and none when \<^verbatim>\<open>parseInt\<close> yields \<^verbatim>\<open>NaN\<close>.
  When \<^verbatim>\<open>getNextKeyIndex\<close> returned \<open>start\<close>, the \<open>j\<close>-th call is made for the index
  \<open>(start + j) mod n\<close>: the request sent has the inbound headers with the key of that
  index set as \<^verbatim>\<open>x-goog-api-key\<close> (gemini), \<^verbatim>\<open>x-api-key\<close> (claude) or
  \<^verbatim>\<open>Authorization: Bearer\<close> (the others), the inbound method and body, and the
  rewritten URL (without the \<^verbatim>\<open>key\<close> parameters for gemini). Two limits of at least
  \<open>n\<close> give the same run, so a limit above the pool size is clamped and is no error.
\<close>

theorem rotation_attempts_sequence:
  fixes P :: platform
  assumes "r_method request \<noteq> ''OPTIONS''"
    and "rotation_selected e request service"
    and "vars e (toUpperCase service @ ''_KEYS'') = Some pool" and "pool \<noteq> []"
    and "JSON_parse P pool = Inr (JArr serviceKeys)" and "serviceKeys \<noteq> []"
  shows "let A = h_attempts (handleRequestWithRotation P request service e);
             n = length serviceKeys;
             u = rewrite_url (r_url request) service
         in (ROTATION_LIMIT e = None \<or> ROTATION_LIMIT e = Some [] \<longrightarrow> length A \<le> min 5 n) \<and>
            (\<forall>s. ROTATION_LIMIT e = Some s \<and> s \<noteq> [] \<longrightarrow>
               (case parseInt s of
                  NaN \<Rightarrow> A = []
                | Num limit \<Rightarrow> int (length A) \<le> max 0 (min limit (int n)))) \<and>
            (\<forall>start db' j.
               getNextKeyIndex (DB e) service n = Inr (start, db') \<and> j < length A \<longrightarrow>
               key_index (A ! j) = Some ((start + j) mod n) \<and>
               r_headers (sent_request (A ! j)) =
                 headers_set (r_headers request)
                   (if service = ''gemini'' then ''x-goog-api-key''
                    else if service = ''claude'' then ''x-api-key'' else ''Authorization'')
                   (if service = ''gemini'' \<or> service = ''claude''
                    then js_ToString (serviceKeys ! ((start + j) mod n))
                    else ''Bearer '' @ js_ToString (serviceKeys ! ((start + j) mod n))) \<and>
               headers_get (r_headers (sent_request (A ! j)))
                   (if service = ''gemini'' then ''x-goog-api-key''
                    else if service = ''claude'' then ''x-api-key'' else ''Authorization'')
                 = Some (if service = ''gemini'' \<or> service = ''claude''
                         then js_ToString (serviceKeys ! ((start + j) mod n))
                         else ''Bearer '' @ js_ToString (serviceKeys ! ((start + j) mod n))) \<and>
               r_method (sent_request (A ! j)) = r_method request \<and>
               r_body (sent_request (A ! j)) = r_body request \<and>
               r_url (sent_request (A ! j)) =
                 (if service = ''gemini''
                  then u\<lparr>searchParams := filter (\<lambda>kv. fst kv \<noteq> ''key'') (searchParams u)\<rparr>
                  else u)) \<and>
            (\<forall>other limit limit'.
               rotationLimit e = Num limit \<and>
               rotationLimit (e\<lparr>ROTATION_LIMIT := other\<rparr>) = Num limit' \<and>
               int n \<le> limit \<and> int n \<le> limit' \<longrightarrow>
               handleRequestWithRotation P request service (e\<lparr>ROTATION_LIMIT := other\<rparr>)
                 = handleRequestWithRotation P request service e)"
proof -
  let ?n = "length serviceKeys"
  let ?u = "rewrite_url (r_url request) service"
  let ?h = "handleRequestWithRotation P request service e"
  let ?A = "h_attempts ?h"
  have h: "?h = rotation_mode P request service e ?u"
    using assms(1,2) by (rule handle_rotation)
  note mode = rotation_mode_pool [OF assms(3-6), of request ?u]
  note len = rotation_calls_bound [OF assms]
  have unset: "length ?A \<le> min 5 ?n"
    if "ROTATION_LIMIT e = None \<or> ROTATION_LIMIT e = Some []"
  proof -
    from that have "rotationLimit e = Num 5" by (auto simp: rotationLimit_def)
    with len have "length ?A \<le> nat (min 5 (int ?n))" by (simp add: remaining_def)
    then show ?thesis by arith
  qed
  have given: "(case parseInt s of
                  NaN \<Rightarrow> ?A = []
                | Num limit \<Rightarrow> int (length ?A) \<le> max 0 (min limit (int ?n)))"
    if "ROTATION_LIMIT e = Some s \<and> s \<noteq> []" for s
  proof -
    from that have rl: "rotationLimit e = parseInt s" by (simp add: rotationLimit_def)
    show ?thesis
    proof (cases "parseInt s")
      case NaN
      with len rl show ?thesis by (simp add: remaining_def)
    next
      case (Num limit)
      with len rl have "length ?A \<le> nat (min limit (int ?n))" by (simp add: remaining_def)
      then have "int (length ?A) \<le> int (nat (min limit (int ?n)))" by (rule of_nat_mono)
      also have "\<dots> = max 0 (min limit (int ?n))" by simp
      finally show ?thesis by (simp add: Num)
    qed
  qed
  have order: "key_index (?A ! j) = Some ((start + j) mod ?n) \<and>
       r_headers (sent_request (?A ! j)) =
         headers_set (r_headers request)
           (if service = ''gemini'' then ''x-goog-api-key''
            else if service = ''claude'' then ''x-api-key'' else ''Authorization'')
           (if service = ''gemini'' \<or> service = ''claude''
            then js_ToString (serviceKeys ! ((start + j) mod ?n))
            else ''Bearer '' @ js_ToString (serviceKeys ! ((start + j) mod ?n))) \<and>
       headers_get (r_headers (sent_request (?A ! j)))
           (if service = ''gemini'' then ''x-goog-api-key''
            else if service = ''claude'' then ''x-api-key'' else ''Authorization'')
         = Some (if service = ''gemini'' \<or> service = ''claude''
                 then js_ToString (serviceKeys ! ((start + j) mod ?n))
                 else ''Bearer '' @ js_ToString (serviceKeys ! ((start + j) mod ?n))) \<and>
       r_method (sent_request (?A ! j)) = r_method request \<and>
       r_body (sent_request (?A ! j)) = r_body request \<and>
       r_url (sent_request (?A ! j)) =
         (if service = ''gemini''
          then ?u\<lparr>searchParams := filter (\<lambda>kv. fst kv \<noteq> ''key'') (searchParams ?u)\<rparr>
          else ?u)"
    if a: "getNextKeyIndex (DB e) service ?n = Inr (start, db') \<and> j < length ?A"
    for start db' j
  proof -
    have calls: "?A = snd (rotation_loop P request service ?u serviceKeys
        (Math_min (rotationLimit e) (int ?n)) 0 start None [])"
      using a by (simp add: h mode loop_outcome_def)
    have lt: "start < ?n"
      using getNextKeyIndex_in_range [of ?n "DB e" service start db'] a assms(6) by simp
    have i: "(start + j) mod ?n < ?n" using assms(6) by simp
    from loop_calls [OF lt, of j P request service ?u "Math_min (rotationLimit e) (int ?n)" 0 None "[]"] a
    have k: "key_index (?A ! j) = Some ((start + j) mod ?n)"
      and rq: "rotation_request request service ?u serviceKeys ((start + j) mod ?n) (j \<noteq> 0)
          = Inr (sent_request (?A ! j))"
      by (simp_all add: calls)
    from k rotation_request_sent [OF rq i] show ?thesis by blast
  qed
  have clamp: "handleRequestWithRotation P request service (e\<lparr>ROTATION_LIMIT := other\<rparr>) = ?h"
    if a: "rotationLimit e = Num limit \<and>
           rotationLimit (e\<lparr>ROTATION_LIMIT := other\<rparr>) = Num limit' \<and>
           int ?n \<le> limit \<and> int ?n \<le> limit'"
    for other limit limit'
  proof -
    let ?e' = "e\<lparr>ROTATION_LIMIT := other\<rparr>"
    have sel: "rotation_selected ?e' request service"
      using assms(2) by (simp add: rotation_selected_def)
    have "Math_min (rotationLimit ?e') (int ?n) = Math_min (rotationLimit e) (int ?n)"
      using a by simp
    then show ?thesis
      using assms(3-6)
      by (simp add: handle_rotation [OF assms(1) sel] handle_rotation [OF assms(1,2)]
          rotation_mode_pool [where e = ?e' and pool = pool and serviceKeys = serviceKeys]
          rotation_mode_pool [where e = e and pool = pool and serviceKeys = serviceKeys]
          split: sum.splits prod.splits)
  qed
  from unset given order clamp show ?thesis unfolding Let_def by blast
qed

theorem rotation_attempts_sequence_witness:
  "r_method (example_request ''GET'' ''/openai/v1/models'' None) \<noteq> ''OPTIONS'' \<and>
   rotation_selected (example_env (Some ''7''))
     (example_request ''GET'' ''/openai/v1/models'' None) ''openai'' \<and>
   vars (example_env (Some ''7'')) (toUpperCase ''openai'' @ ''_KEYS'') = Some example_pool \<and>
   JSON_parse busy example_pool = Inr (JArr [JStr ''k1'', JStr ''k2'', JStr ''k3'']) \<and>
   parseInt ''7'' = Num 7 \<and>
   getNextKeyIndex (DB (example_env (Some ''7''))) ''openai'' 3
     = Inr (1, \<lparr>rows = [(''openai'', 2)], fault = None\<rparr>) \<and>
   map key_index (h_attempts (handleRequestWithRotation busy
         (example_request ''GET'' ''/openai/v1/models'' None) ''openai''
         (example_env (Some ''7'')))) = [Some 1, Some 2, Some 0] \<and>
   int (length (h_attempts (handleRequestWithRotation busy
         (example_request ''GET'' ''/openai/v1/models'' None) ''openai''
         (example_env (Some ''7''))))) \<le> max 0 (min 7 3) \<and>
   key_index (h_attempts (handleRequestWithRotation busy
         (example_request ''GET'' ''/openai/v1/models'' None) ''openai''
         (example_env (Some ''7''))) ! 2) = Some ((1 + 2) mod 3) \<and>
   r_headers (sent_request (h_attempts (handleRequestWithRotation busy
         (example_request ''GET'' ''/openai/v1/models'' None) ''openai''
         (example_env (Some ''7''))) ! 2)) = [(''authorization'', ''Bearer k1'')] \<and>
   headers_get (r_headers (sent_request (h_attempts (handleRequestWithRotation busy
         (example_request ''GET'' ''/openai/v1/models'' None) ''openai''
         (example_env (Some ''7''))) ! 2))) ''Authorization'' = Some ''Bearer k1'' \<and>
   r_url (sent_request (h_attempts (handleRequestWithRotation busy
         (example_request ''GET'' ''/openai/v1/models'' None) ''openai''
         (example_env (Some ''7''))) ! 2))
     = \<lparr>protocol = ''https:'', hostname = ''api.openai.com'', port = [],
        pathname = ''/v1/models'', searchParams = []\<rparr> \<and>
   handleRequestWithRotation busy (example_request ''GET'' ''/openai/v1/models'' None) ''openai''
       (example_env (Some ''7'')\<lparr>ROTATION_LIMIT := Some ''5''\<rparr>)
     = handleRequestWithRotation busy (example_request ''GET'' ''/openai/v1/models'' None)
         ''openai'' (example_env (Some ''7'')) \<and>
   length (h_attempts (handleRequestWithRotation busy
         (example_request ''GET'' ''/openai/v1/models'' None) ''openai''
         (example_env None))) \<le> min 5 3"
proof -
  let ?rq = "example_request ''GET'' ''/openai/v1/models'' None"
  let ?e = "example_env (Some ''7'')"
  let ?d = "example_env None"
  let ?keys = "[JStr ''k1'', JStr ''k2'', JStr ''k3'']"
  let ?A = "h_attempts (handleRequestWithRotation busy ?rq ''openai'' ?e)"
  have h1: "r_method ?rq \<noteq> ''OPTIONS''" by (simp add: example_defs)
  have h2: "rotation_selected ?e ?rq ''openai''"
    by (simp add: rotation_selected_def extractApiKey_def js_defs example_defs)
  have h3: "vars ?e (toUpperCase ''openai'' @ ''_KEYS'') = Some example_pool"
    by (simp add: js_defs example_env_def)
  have h4: "example_pool \<noteq> []" by (simp add: example_pool_def)
  have h5: "JSON_parse busy example_pool = Inr (JArr ?keys)"
    by (simp add: busy_def example_JSON_parse_def)
  have h6: "?keys \<noteq> []" by simp
  have d2: "rotation_selected ?d ?rq ''openai''"
    by (simp add: rotation_selected_def extractApiKey_def js_defs example_defs)
  have d3: "vars ?d (toUpperCase ''openai'' @ ''_KEYS'') = Some example_pool"
    by (simp add: js_defs example_env_def)
  have p7: "parseInt ''7'' = Num 7" by (simp add: js_defs)
  have h9: "getNextKeyIndex (DB ?e) ''openai'' 3 = Inr (1, \<lparr>rows = [(''openai'', 2)], fault = None\<rparr>)"
    by (simp add: getNextKeyIndex_def upsert_def js_defs example_env_def)
  have idx: "map key_index ?A = [Some 1, Some 2, Some 0]"
    by (simp add: worker_defs js_defs example_defs Let_def)
  then have len: "length ?A = 3"
    by (metis length_map length_Cons list.size(3) numeral_3_eq_3)
  have three: "length ?keys = 3" by simp
  have h9': "getNextKeyIndex (DB ?e) ''openai'' (length ?keys)
      = Inr (1, \<lparr>rows = [(''openai'', 2)], fault = None\<rparr>) \<and> 2 < length ?A"
    unfolding three using h9 len by simp
  have l7: "ROTATION_LIMIT ?e = Some ''7'' \<and> ''7'' \<noteq> []" by (simp add: example_env_def)
  have l5: "rotationLimit ?e = Num 7 \<and> rotationLimit (?e\<lparr>ROTATION_LIMIT := Some ''5''\<rparr>) = Num 5 \<and>
      int (length ?keys) \<le> 7 \<and> int (length ?keys) \<le> 5"
    by (simp add: rotationLimit_def js_defs example_env_def)
  have dn: "ROTATION_LIMIT ?d = None \<or> ROTATION_LIMIT ?d = Some []" by (simp add: example_env_def)
  note inst = rotation_attempts_sequence [OF h1 h2 h3 h4 h5 h6, unfolded Let_def]
  note dflt = rotation_attempts_sequence [OF h1 d2 d3 h4 h5 h6, unfolded Let_def]
  from inst [THEN conjunct2, THEN conjunct1, rule_format, OF l7]
  have a: "int (length ?A) \<le> max 0 (min 7 3)" by (simp add: p7)
  note at2 = inst [THEN conjunct2, THEN conjunct2, THEN conjunct1, rule_format, OF h9']
  from at2 [THEN conjunct1] have b: "key_index (?A ! 2) = Some ((1 + 2) mod 3)" by simp
  have hs: "headers_set (r_headers ?rq) ''Authorization'' ''Bearer k1''
      = [(''authorization'', ''Bearer k1'')]"
    by (simp add: js_defs example_defs)
  from at2 [THEN conjunct2, THEN conjunct1]
  have "r_headers (sent_request (?A ! 2))
      = headers_set (r_headers ?rq) ''Authorization'' ''Bearer k1''"
    by simp
  from this hs have c: "r_headers (sent_request (?A ! 2)) = [(''authorization'', ''Bearer k1'')]"
    by (rule trans)
  from at2 [THEN conjunct2, THEN conjunct2, THEN conjunct1]
  have c': "headers_get (r_headers (sent_request (?A ! 2))) ''Authorization'' = Some ''Bearer k1''"
    by simp
  have ru: "rewrite_url (r_url ?rq) ''openai''
     = \<lparr>protocol = ''https:'', hostname = ''api.openai.com'', port = [],
        pathname = ''/v1/models'', searchParams = []\<rparr>"
    by (simp add: rewrite_url_def set_hostname_def set_pathname_def ROUTE_MAP_get_def
        ROUTE_MAP_def js_defs example_defs)
  from at2 [THEN conjunct2, THEN conjunct2, THEN conjunct2, THEN conjunct2, THEN conjunct2]
  have "r_url (sent_request (?A ! 2)) = rewrite_url (r_url ?rq) ''openai''"
    by simp
  from this ru have u: "r_url (sent_request (?A ! 2))
     = \<lparr>protocol = ''https:'', hostname = ''api.openai.com'', port = [],
        pathname = ''/v1/models'', searchParams = []\<rparr>"
    by (rule trans)
  from inst [THEN conjunct2, THEN conjunct2, THEN conjunct2, rule_format, OF l5]
  have k: "handleRequestWithRotation busy ?rq ''openai'' (?e\<lparr>ROTATION_LIMIT := Some ''5''\<rparr>)
     = handleRequestWithRotation busy ?rq ''openai'' ?e" .
  from dflt [THEN conjunct1, rule_format, OF dn]
  have m: "length (h_attempts (handleRequestWithRotation busy ?rq ''openai'' ?d)) \<le> min 5 3"
    by simp
  from h1 h2 h3 h5 p7 h9 idx a b c c' u k m show ?thesis by blast
qed

subsection \<open>A response other than 429 ends the rotation\<close>

lemma applyCorsHeaders_status [simp]: "status (applyCorsHeaders r) = status r"
  by (simp add: applyCorsHeaders_def)

lemma applyCorsHeaders_body [simp]: "body (applyCorsHeaders r) = body r"
  by (simp add: applyCorsHeaders_def)

lemma new_Response_fields [simp]:
  "status (new_Response b r) = status r" "headers (new_Response b r) = headers r"
  "body (new_Response b r) = b"
  by (simp_all add: new_Response_def)

lemma loop_non429:
  fixes P :: platform
  assumes "j < length (snd (rotation_loop P request service u serviceKeys maxRetries retryCount
      currentIndex lastResponse sent))"
    and "outcome (snd (rotation_loop P request service u serviceKeys maxRetries retryCount
      currentIndex lastResponse sent) ! j) = Inr r"
    and "status r \<noteq> 429"
  shows "Suc j = length (snd (rotation_loop P request service u serviceKeys maxRetries retryCount
      currentIndex lastResponse sent)) \<and>
    fst (rotation_loop P request service u serviceKeys maxRetries retryCount
      currentIndex lastResponse sent) = Inr (applyCorsHeaders (new_Response (body r) r))"
  using assms
proof (induction retryCount currentIndex lastResponse sent arbitrary: j
    rule: loop_induct [where P = P and request = request and service = service and u = u
      and serviceKeys = serviceKeys and maxRetries = maxRetries])
  case (stop retryCount currentIndex lastResponse sent)
  then show ?case by (simp add: loop_stop)
next
  case (throw retryCount currentIndex lastResponse sent msg)
  then show ?case by (simp add: loop_throw)
next
  case (return retryCount currentIndex lastResponse sent rq r')
  then show ?case by (simp add: loop_return)
next
  case (retry429 retryCount currentIndex lastResponse sent rq r')
  show ?case
  proof (cases j)
    case 0
    with retry429.prems retry429.hyps show ?thesis by (simp add: loop_429)
  next
    case (Suc j')
    with retry429.prems retry429.hyps retry429.IH [of j'] show ?thesis by (simp add: loop_429)
  qed
next
  case (failed retryCount currentIndex lastResponse sent rq err)
  show ?case
  proof (cases j)
    case 0
    with failed.prems failed.hyps show ?thesis by (simp add: loop_failed)
  next
    case (Suc j')
    with failed.prems failed.hyps failed.IH [of j'] show ?thesis by (simp add: loop_failed)
  qed
qed

lemma rotation_mode_cases:
  "h_attempts (rotation_mode P request service e u) = [] \<or>
   (\<exists>serviceKeys maxRetries currentIndex db'.
      rotation_mode P request service e u =
      loop_outcome (rotation_loop P request service u serviceKeys maxRetries 0 currentIndex None [])
        db')"
proof (cases "vars e (toUpperCase service @ ''_KEYS'')")
  case None
  then show ?thesis by (simp add: rotation_mode_def)
next
  case (Some pool)
  show ?thesis
  proof (cases "pool = []")
    case True
    with Some show ?thesis by (simp add: rotation_mode_def)
  next
    case pool: False
    show ?thesis
    proof (cases "JSON_parse P pool")
      case (Inl msg)
      with Some pool show ?thesis by (simp add: rotation_mode_def)
    next
      case (Inr v)
      show ?thesis
      proof (cases "\<exists>serviceKeys. v = JArr serviceKeys \<and> serviceKeys \<noteq> []")
        case False
        with Some pool Inr show ?thesis
          by (cases v) (simp_all add: rotation_mode_def)
      next
        case True
        then obtain serviceKeys where v: "v = JArr serviceKeys" "serviceKeys \<noteq> []" by blast
        note mode = rotation_mode_pool [OF Some pool Inr [unfolded v(1)] v(2), of request u]
        show ?thesis
        proof (cases "getNextKeyIndex (DB e) service (length serviceKeys)")
          case (Inl msg)
          then show ?thesis by (simp add: mode)
        next
          case (Inr p)
          then show ?thesis by (cases p) (auto simp: mode)
        qed
      qed
    qed
  qed
qed

text \<open>
  Claim C4. In rotation mode an upstream response whose status is not 429 is the last
  upstream call of the request, and the handler returns it with its status and body; so
  when the first call is answered with a status other than 429 there is exactly one call.
\<close>

theorem non429_ends_rotation:
  fixes P :: platform
  assumes "r_method request \<noteq> ''OPTIONS''"
    and "rotation_selected e request service"
  shows "(\<forall>j r. j < length (h_attempts (handleRequestWithRotation P request service e)) \<and>
            outcome (h_attempts (handleRequestWithRotation P request service e) ! j) = Inr r \<and>
            status r \<noteq> 429 \<longrightarrow>
            Suc j = length (h_attempts (handleRequestWithRotation P request service e)) \<and>
            (\<exists>response. h_result (handleRequestWithRotation P request service e) = Inr response \<and>
               status response = status r \<and> body response = body r)) \<and>
         (\<forall>r. h_attempts (handleRequestWithRotation P request service e) \<noteq> [] \<and>
            outcome (hd (h_attempts (handleRequestWithRotation P request service e))) = Inr r \<and>
            status r \<noteq> 429 \<longrightarrow>
            length (h_attempts (handleRequestWithRotation P request service e)) = 1)"
proof -
  let ?u = "rewrite_url (r_url request) service"
  let ?h = "handleRequestWithRotation P request service e"
  have h: "?h = rotation_mode P request service e ?u"
    using assms by (rule handle_rotation)
  have main: "Suc j = length (h_attempts ?h) \<and>
      (\<exists>response. h_result ?h = Inr response \<and> status response = status r \<and>
         body response = body r)"
    if a: "j < length (h_attempts ?h)" "outcome (h_attempts ?h ! j) = Inr r" "status r \<noteq> 429"
    for j r
  proof -
    from a(1) rotation_mode_cases [of P request service e ?u]
    obtain serviceKeys maxRetries currentIndex db' where
      eq: "?h = loop_outcome
        (rotation_loop P request service ?u serviceKeys maxRetries 0 currentIndex None []) db'"
      by (auto simp: h)
    from a loop_non429 [of j P request service ?u serviceKeys maxRetries 0 currentIndex None "[]" r]
    show ?thesis by (simp add: eq loop_outcome_def)
  qed
  have first: "length (h_attempts ?h) = 1"
    if a: "h_attempts ?h \<noteq> []" "outcome (hd (h_attempts ?h)) = Inr r" "status r \<noteq> 429" for r
  proof -
    from a(1) have "0 < length (h_attempts ?h)" by simp
    moreover from a(1,2) have "outcome (h_attempts ?h ! 0) = Inr r" by (simp add: hd_conv_nth)
    ultimately show ?thesis using main [of 0 r] a(3) by simp
  qed
  from main first show ?thesis by blast
qed

theorem non429_ends_rotation_witness:
  "r_method (example_request ''GET'' ''/openai/v1/models'' None) \<noteq> ''OPTIONS'' \<and>
   rotation_selected (example_env None)
     (example_request ''GET'' ''/openai/v1/models'' None) ''openai'' \<and>
   map outcome (h_attempts (handleRequestWithRotation flaky
         (example_request ''GET'' ''/openai/v1/models'' None) ''openai'' (example_env None)))
     = [Inr \<lparr>status = 429, headers = [], body = Some ''slow down''\<rparr>,
        Inr \<lparr>status = 200, headers = [], body = Some ''ok''\<rparr>] \<and>
   (\<exists>response. h_result (handleRequestWithRotation flaky
         (example_request ''GET'' ''/openai/v1/models'' None) ''openai'' (example_env None))
       = Inr response \<and> status response = 200 \<and> body response = Some ''ok'')"
proof -
  let ?rq = "example_request ''GET'' ''/openai/v1/models'' None"
  let ?h = "handleRequestWithRotation flaky ?rq ''openai'' (example_env None)"
  let ?ok = "\<lparr>status = 200, headers = [], body = Some ''ok''\<rparr>"
  have h1: "r_method ?rq \<noteq> ''OPTIONS''" by (simp add: example_defs)
  have h2: "rotation_selected (example_env None) ?rq ''openai''"
    by (simp add: rotation_selected_def extractApiKey_def js_defs example_defs)
  have calls: "map outcome (h_attempts ?h)
     = [Inr \<lparr>status = 429, headers = [], body = Some ''slow down''\<rparr>, Inr ?ok]"
    by (simp add: worker_defs js_defs example_defs Let_def)
  have len: "length (h_attempts ?h) = 2"
    using arg_cong [OF calls, of length] by simp
  have lt: "1 < length (h_attempts ?h)" by (simp add: len)
  have second: "outcome (h_attempts ?h ! 1) = Inr ?ok"
    using nth_map [OF lt, of outcome] by (simp add: calls)
  have ne: "status ?ok \<noteq> 429" by simp
  note inst = non429_ends_rotation [OF h1 h2, THEN conjunct1, rule_format, where j = 1 and r = ?ok]
  from inst [OF conjI [OF lt conjI [OF second ne]]]
  have "\<exists>response. h_result ?h = Inr response \<and> status response = 200 \<and> body response = Some ''ok''"
    by simp
  with h1 h2 calls show ?thesis by (intro conjI)
qed

subsection \<open>A limit that is not a number\<close>

text \<open>
  Claim C10 says that in rotation mode with a non-empty pool, a \<^verbatim>\<open>ROTATION_LIMIT\<close> on
  which \<^verbatim>\<open>parseInt\<close> yields \<^verbatim>\<open>NaN\<close> makes the loop perform no upstream call and the
  caller receive the generic response with status 429.

  As stated it fails where \<^verbatim>\<open>getNextKeyIndex\<close>, which line 233 calls before the loop,
  throws: without a D1 binding the handler's \<^verbatim>\<open>catch\<close> answers 500. It also fails
  for the empty string, on which \<^verbatim>\<open>parseInt\<close> yields \<^verbatim>\<open>NaN\<close> but which line 230 takes
  for an unset limit: the loop then runs with the limit 5.
\<close>

theorem nan_limit_no_attempt_counterexample:
  "rotation_selected (example_env (Some ''abc'')\<lparr>DB := None\<rparr>)
     (example_request ''GET'' ''/openai/v1/models'' None) ''openai'' \<and>
   parseInt ''abc'' = NaN \<and>
   h_result (handleRequestWithRotation busy (example_request ''GET'' ''/openai/v1/models'' None)
       ''openai'' (example_env (Some ''abc'')\<lparr>DB := None\<rparr>))
     = Inr (rotation_error_response msg_db_missing) \<and>
   status (rotation_error_response msg_db_missing) = 500 \<and>
   parseInt [] = NaN \<and>
   map key_index (h_attempts (handleRequestWithRotation busy
       (example_request ''GET'' ''/openai/v1/models'' None) ''openai'' (example_env (Some []))))
     = [Some 1, Some 2, Some 0]"
  by (simp add: worker_defs js_defs example_defs Let_def)

text \<open>
  Claim C10, amended. With a limit that is a non-empty string on which \<^verbatim>\<open>parseInt\<close>
  yields \<^verbatim>\<open>NaN\<close>, no upstream call is made. The caller receives the
  generic response (status 429, the text of line 301) when \<^verbatim>\<open>getNextKeyIndex\<close> returns
  an index, and the response of line 304 (status 500) with the message of the error when
  it throws.
\<close>

theorem nan_limit_no_attempt:
  fixes P :: platform
  assumes "r_method request \<noteq> ''OPTIONS''"
    and "rotation_selected e request service"
    and "vars e (toUpperCase service @ ''_KEYS'') = Some pool" and "pool \<noteq> []"
    and "JSON_parse P pool = Inr (JArr serviceKeys)" and "serviceKeys \<noteq> []"
    and "ROTATION_LIMIT e = Some s" and "s \<noteq> []" and "parseInt s = NaN"
  shows "h_attempts (handleRequestWithRotation P request service e) = [] \<and>
         h_result (handleRequestWithRotation P request service e) =
           (case getNextKeyIndex (DB e) service (length serviceKeys) of
              Inr _ \<Rightarrow> Inr exhausted_response
            | Inl msg \<Rightarrow> Inr (rotation_error_response msg)) \<and>
         status exhausted_response = 429 \<and> body exhausted_response = Some msg_exhausted \<and>
         (\<forall>msg. status (rotation_error_response msg) = 500)"
proof -
  let ?u = "rewrite_url (r_url request) service"
  have h: "handleRequestWithRotation P request service e = rotation_mode P request service e ?u"
    using assms(1,2) by (rule handle_rotation)
  have mx: "Math_min (rotationLimit e) (int (length serviceKeys)) = NaN"
    using assms(7-9) by (simp add: rotationLimit_def)
  have loop: "rotation_loop P request service ?u serviceKeys NaN 0 ci None []
      = (Inr exhausted_response, [])" for ci
    by (simp add: loop_stop after_loop_def)
  show ?thesis
    by (simp add: h rotation_mode_pool [OF assms(3-6)] mx loop loop_outcome_def
        exhausted_response_def rotation_error_response_def text_response_def
        split: sum.splits prod.splits)
qed

theorem nan_limit_no_attempt_witness:
  "r_method (example_request ''GET'' ''/openai/v1/models'' None) \<noteq> ''OPTIONS'' \<and>
   rotation_selected (example_env (Some ''abc''))
     (example_request ''GET'' ''/openai/v1/models'' None) ''openai'' \<and>
   vars (example_env (Some ''abc'')) (toUpperCase ''openai'' @ ''_KEYS'') = Some example_pool \<and>
   JSON_parse busy example_pool = Inr (JArr [JStr ''k1'', JStr ''k2'', JStr ''k3'']) \<and>
   parseInt ''abc'' = NaN \<and>
   h_attempts (handleRequestWithRotation busy (example_request ''GET'' ''/openai/v1/models'' None)
       ''openai'' (example_env (Some ''abc''))) = [] \<and>
   h_result (handleRequestWithRotation busy (example_request ''GET'' ''/openai/v1/models'' None)
       ''openai'' (example_env (Some ''abc''))) = Inr exhausted_response"
proof -
  let ?rq = "example_request ''GET'' ''/openai/v1/models'' None"
  let ?e = "example_env (Some ''abc'')"
  let ?keys = "[JStr ''k1'', JStr ''k2'', JStr ''k3'']"
  have h1: "r_method ?rq \<noteq> ''OPTIONS''" by (simp add: example_defs)
  have h2: "rotation_selected ?e ?rq ''openai''"
    by (simp add: rotation_selected_def extractApiKey_def js_defs example_defs)
  have h3: "vars ?e (toUpperCase ''openai'' @ ''_KEYS'') = Some example_pool"
    by (simp add: js_defs example_env_def)
  have h4: "example_pool \<noteq> []" by (simp add: example_pool_def)
  have h5: "JSON_parse busy example_pool = Inr (JArr ?keys)"
    by (simp add: busy_def example_JSON_parse_def)
  have h6: "?keys \<noteq> []" by simp
  have h7: "ROTATION_LIMIT ?e = Some ''abc''" by (simp add: example_env_def)
  have h8: "''abc'' \<noteq> []" by simp
  have h9: "parseInt ''abc'' = NaN" by (simp add: js_defs)
  have db: "getNextKeyIndex (DB ?e) ''openai'' (length ?keys)
      = Inr (1, \<lparr>rows = [(''openai'', 2)], fault = None\<rparr>)"
    by (simp add: getNextKeyIndex_def upsert_def js_defs example_env_def)
  note inst = nan_limit_no_attempt [OF h1 h2 h3 h4 h5 h6 h7 h8 h9]
  have "h_attempts (handleRequestWithRotation busy ?rq ''openai'' ?e) = [] \<and>
        h_result (handleRequestWithRotation busy ?rq ''openai'' ?e) = Inr exhausted_response"
    using inst unfolding db by simp
  with h1 h2 h3 h5 h9 show ?thesis by (intro conjI) simp_all
qed

subsection \<open>Retrying a request that has a body\<close>

text \<open>
  When the request has no body and every upstream call is answered 429 or fails, the
  handler returns the last upstream response, with the CORS headers added. The run below
  is the example of the specification: limit 2, the counter pointing at the second of
  three keys.
\<close>

lemma last_response_Nil [simp]: "last_response lr [] = lr"
  by (simp add: last_response_def)

lemma last_response_Cons [simp]:
  "last_response lr (a # calls) =
     last_response (case outcome a of Inr r \<Rightarrow> Some r | Inl _ \<Rightarrow> lr) calls"
  by (simp add: last_response_def)

lemma last_response_mem:
  "last_response lr calls = Some r \<Longrightarrow>
   lr = Some r \<or> (\<exists>a. a \<in> set calls \<and> outcome a = Inr r)"
proof (induction calls arbitrary: lr)
  case Nil
  then show ?case by simp
next
  case (Cons a calls)
  from Cons.IH [of "case outcome a of Inr r \<Rightarrow> Some r | Inl _ \<Rightarrow> lr"] Cons.prems
  show ?case by (auto split: sum.splits)
qed

lemma rotation_request_without_body:
  "r_body request = None \<Longrightarrow>
   rotation_request request service u serviceKeys currentIndex used \<noteq> Inl msg"
  by (simp add: rotation_request_def new_Request_def Let_def)

lemma loop_all_429:
  fixes P :: platform
  assumes "r_body request = None"
    and "\<forall>a r. a \<in> set (snd (rotation_loop P request service u serviceKeys maxRetries
            retryCount currentIndex lastResponse sent)) \<and> outcome a = Inr r \<longrightarrow> status r = 429"
  shows "fst (rotation_loop P request service u serviceKeys maxRetries retryCount currentIndex
            lastResponse sent) =
         Inr (after_loop (last_response lastResponse
           (snd (rotation_loop P request service u serviceKeys maxRetries retryCount
              currentIndex lastResponse sent))))"
  using assms(2)
proof (induction retryCount currentIndex lastResponse sent
    rule: loop_induct [where P = P and request = request and service = service and u = u
      and serviceKeys = serviceKeys and maxRetries = maxRetries])
  case (stop retryCount currentIndex lastResponse sent)
  then show ?case by (simp add: loop_stop)
next
  case (throw retryCount currentIndex lastResponse sent msg)
  then show ?case using rotation_request_without_body [OF assms(1)] by simp
next
  case (return retryCount currentIndex lastResponse sent rq r)
  let ?a = "\<lparr>key_index = Some currentIndex, sent_request = rq, outcome = Inr r\<rparr>"
  have eq: "rotation_loop P request service u serviceKeys maxRetries retryCount currentIndex
      lastResponse sent = (Inr (applyCorsHeaders (new_Response (body r) r)), [?a])"
    using return.hyps by (simp add: loop_return)
  have "?a \<in> set (snd (rotation_loop P request service u serviceKeys maxRetries retryCount
      currentIndex lastResponse sent)) \<and> outcome ?a = Inr r"
    by (simp add: eq)
  with return.prems have "status r = 429" by blast
  with return.hyps show ?case by simp
next
  case (retry429 retryCount currentIndex lastResponse sent rq r)
  let ?a = "\<lparr>key_index = Some currentIndex, sent_request = rq, outcome = Inr r\<rparr>"
  let ?rest = "rotation_loop P request service u serviceKeys maxRetries (Suc retryCount)
      ((currentIndex + 1) mod length serviceKeys) (Some r) (sent @ [rq])"
  have eq: "rotation_loop P request service u serviceKeys maxRetries retryCount currentIndex
      lastResponse sent = with_attempt ?a ?rest"
    using retry429.hyps by (simp add: loop_429)
  have "\<forall>a r'. a \<in> set (snd ?rest) \<and> outcome a = Inr r' \<longrightarrow> status r' = 429"
  proof (intro allI impI)
    fix a r'
    assume "a \<in> set (snd ?rest) \<and> outcome a = Inr r'"
    then have "a \<in> set (snd (with_attempt ?a ?rest)) \<and> outcome a = Inr r'" by simp
    with retry429.prems show "status r' = 429" unfolding eq by blast
  qed
  from retry429.IH [OF this] show ?case by (simp add: eq)
next
  case (failed retryCount currentIndex lastResponse sent rq err)
  let ?a = "\<lparr>key_index = Some currentIndex, sent_request = rq, outcome = Inl err\<rparr>"
  let ?rest = "rotation_loop P request service u serviceKeys maxRetries (Suc retryCount)
      ((currentIndex + 1) mod length serviceKeys) lastResponse (sent @ [rq])"
  have eq: "rotation_loop P request service u serviceKeys maxRetries retryCount currentIndex
      lastResponse sent = with_attempt ?a ?rest"
    using failed.hyps by (simp add: loop_failed)
  have "\<forall>a r'. a \<in> set (snd ?rest) \<and> outcome a = Inr r' \<longrightarrow> status r' = 429"
  proof (intro allI impI)
    fix a r'
    assume "a \<in> set (snd ?rest) \<and> outcome a = Inr r'"
    then have "a \<in> set (snd (with_attempt ?a ?rest)) \<and> outcome a = Inr r'" by simp
    with failed.prems show "status r' = 429" unfolding eq by blast
  qed
  from failed.IH [OF this] show ?case by (simp add: eq)
qed

lemma all_429_without_body:
  fixes P :: platform
  assumes "r_method request \<noteq> ''OPTIONS''"
    and "rotation_selected e request service"
    and "r_body request = None"
    and "\<forall>a r. a \<in> set (h_attempts (handleRequestWithRotation P request service e)) \<and>
           outcome a = Inr r \<longrightarrow> status r = 429"
    and "last_response None (h_attempts (handleRequestWithRotation P request service e)) = Some r"
  shows "h_result (handleRequestWithRotation P request service e)
           = Inr (applyCorsHeaders (new_Response (body r) r)) \<and> status r = 429"
proof -
  let ?u = "rewrite_url (r_url request) service"
  let ?h = "handleRequestWithRotation P request service e"
  have h: "?h = rotation_mode P request service e ?u"
    using assms(1,2) by (rule handle_rotation)
  from assms(5) have "h_attempts ?h \<noteq> []" by auto
  with rotation_mode_cases [of P request service e ?u]
  obtain serviceKeys maxRetries currentIndex db' where
    eq: "?h = loop_outcome
      (rotation_loop P request service ?u serviceKeys maxRetries 0 currentIndex None []) db'"
    by (auto simp: h)
  let ?L = "rotation_loop P request service ?u serviceKeys maxRetries 0 currentIndex None []"
  have calls: "h_attempts ?h = snd ?L" by (simp add: eq loop_outcome_def)
  from last_response_mem [OF assms(5)] obtain a where
    "a \<in> set (h_attempts ?h) \<and> outcome a = Inr r" by blast
  with assms(4) have st: "status r = 429" by blast
  have "fst ?L = Inr (after_loop (last_response None (snd ?L)))"
    using assms(4) unfolding calls by (rule loop_all_429 [OF assms(3)])
  then have "fst ?L = Inr (after_loop (Some r))"
    using assms(5) by (simp add: calls)
  then show ?thesis by (simp add: eq loop_outcome_def after_loop_def st)
qed

lemma all_429_get:
  "map key_index (h_attempts (handleRequestWithRotation busy
       (example_request ''GET'' ''/openai/v1/models'' None) ''openai'' (example_env (Some ''2''))))
     = [Some 1, Some 2] \<and>
   h_result (handleRequestWithRotation busy
       (example_request ''GET'' ''/openai/v1/models'' None) ''openai'' (example_env (Some ''2'')))
     = Inr (applyCorsHeaders \<lparr>status = 429, headers = [], body = Some ''Bearer k3''\<rparr>)"
  by (simp add: worker_defs js_defs example_defs Let_def)

text \<open>
  Claim C3 says that when every upstream call of a rotation is answered 429, the caller
  receives status 429 with the body of the last upstream response.

  The code does so only while it can build the next request. For the example of the
  specification (pool of three keys, limit 2, the counter pointing at the second key) and
  a \<^verbatim>\<open>POST\<close> with a body, the first call is answered 429; the second iteration passes
  \<^verbatim>\<open>request.body\<close>, the stream the first \<^verbatim>\<open>fetch\<close> has read, to \<^verbatim>\<open>new Request\<close>,
  which throws outside the inner \<^verbatim>\<open>try\<close>. The handler's \<^verbatim>\<open>catch\<close> turns that into
  a response with status 500: one upstream call, answered 429, and the caller is told
  500. Without a body the handler does what the claim says (\<open>all_429_without_body\<close>).
\<close>

theorem retry_with_body_is_refused:
  "map key_index (h_attempts (handleRequestWithRotation busy
       (example_request ''POST'' ''/openai/v1/chat/completions'' (Some ''{\"model\":\"gpt-4o\"}''))
       ''openai'' (example_env (Some ''2''))))
     = [Some 1] \<and>
   map outcome (h_attempts (handleRequestWithRotation busy
       (example_request ''POST'' ''/openai/v1/chat/completions'' (Some ''{\"model\":\"gpt-4o\"}''))
       ''openai'' (example_env (Some ''2''))))
     = [Inr \<lparr>status = 429, headers = [], body = Some ''Bearer k2''\<rparr>] \<and>
   h_result (handleRequestWithRotation busy
       (example_request ''POST'' ''/openai/v1/chat/completions'' (Some ''{\"model\":\"gpt-4o\"}''))
       ''openai'' (example_env (Some ''2'')))
     = Inr (rotation_error_response msg_body_used) \<and>
   status (rotation_error_response msg_body_used) = 500"
  by (simp add: worker_defs js_defs example_defs Let_def)

subsection \<open>The entry point\<close>

lemma extract_model_truthy: "truthy (extract_model P e request service pathSegments)"
  by (simp add: extract_model_def Let_def split: sum.splits option.splits)

lemma logRequest_known:
  "service \<noteq> [] \<Longrightarrow> truthy m \<Longrightarrow>
   logRequest e \<lparr>rd_service = service, rd_model = m\<rparr> response startTime now err =
   (if LOGS e then
      [\<lparr>indexes = [service],
        blobs = [JStr service, m, (case err of None \<Rightarrow> JNull | Some msg \<Rightarrow> JStr msg)],
        doubles = [int (status response), now - startTime]\<rparr>]
    else [])"
  by (simp add: logRequest_def Let_def)

lemma first_segment_nonempty:
  "filter (\<lambda>seg. seg \<noteq> []) segs = service # rest \<Longrightarrow> service \<noteq> []"
proof -
  assume "filter (\<lambda>seg. seg \<noteq> []) segs = service # rest"
  then have "service \<in> set (filter (\<lambda>seg. seg \<noteq> []) segs)" by simp
  then show ?thesis by simp
qed

lemma worker_fetch_valid:
  assumes "filter (\<lambda>seg. seg \<noteq> []) (split CHR ''/'' (pathname (r_url request))) = service # rest"
    and "ROUTE_MAP_get service \<noteq> None"
  shows "worker_fetch P request e startTime now =
    (case h_result (handleRequestWithRotation P request service e) of
       Inr response \<Rightarrow>
         \<lparr>s_response = response,
          s_attempts = h_attempts (handleRequestWithRotation P request service e),
          s_logged =
            (if LOGS e then
               [\<lparr>indexes = [service],
                 blobs = [JStr service, extract_model P e request service (service # rest), JNull],
                 doubles = [int (status response), now - startTime]\<rparr>]
             else []),
          s_db = h_db (handleRequestWithRotation P request service e)\<rparr>
     | Inl msg \<Rightarrow>
         \<lparr>s_response =
            text_response (if msg \<noteq> [] then msg else ''An unexpected error occurred.'') 500,
          s_attempts = h_attempts (handleRequestWithRotation P request service e),
          s_logged =
            (if LOGS e then
               [\<lparr>indexes = [service],
                 blobs = [JStr service, extract_model P e request service (service # rest),
                          JStr msg],
                 doubles = [500, now - startTime]\<rparr>]
             else []),
          s_db = h_db (handleRequestWithRotation P request service e)\<rparr>)"
proof -
  from assms(2) obtain target where "ROUTE_MAP_get service = Some target" by blast
  with assms(1) first_segment_nonempty [OF assms(1)] show ?thesis
    by (simp add: worker_fetch_def Let_def logRequest_known extract_model_truthy text_response_def
        split: sum.splits)
qed

lemma unknown_name_is_refused:
  assumes "filter (\<lambda>seg. seg \<noteq> []) (split CHR ''/'' (pathname (r_url request))) = []
           \<or> ROUTE_MAP_get (hd (filter (\<lambda>seg. seg \<noteq> []) (split CHR ''/'' (pathname (r_url request))))) = None"
  shows "worker_fetch P request e startTime now =
    \<lparr>s_response = url_format_response, s_attempts = [], s_logged = [], s_db = DB e\<rparr>"
  using assms by (auto simp: worker_fetch_def split: list.splits)

text \<open>
  Claim C5 says that a request whose first path segment is not one of the five providers
  is answered 325, with no upstream call and no data point.

  The code tests \<^verbatim>\<open>!ROUTE_MAP[pathSegments[0]]\<close> on an object literal, so a segment that
  names a property of \<^verbatim>\<open>Object.prototype\<close> passes the test although \<^verbatim>\<open>ROUTE_MAP\<close> does
  not configure it. For \<^verbatim>\<open>/constructor/v1/models\<close> the worker strips the segment, sends
  the request on (the host name is left as it was, since the value found is no host
  name), returns the answer, and logs it under the service \<^verbatim>\<open>constructor\<close>. For every
  other unknown name, and for the empty path, \<open>unknown_name_is_refused\<close> gives what
  the claim says.
\<close>

theorem inherited_name_is_forwarded:
  "map_of ROUTE_MAP ''constructor'' = None \<and>
   status (s_response (worker_fetch healthy
       (example_request ''GET'' ''/constructor/v1/models'' None) passthrough_env 0 7)) = 200 \<and>
   map (\<lambda>a. (hostname (r_url (sent_request a)), pathname (r_url (sent_request a))))
     (s_attempts (worker_fetch healthy
       (example_request ''GET'' ''/constructor/v1/models'' None) passthrough_env 0 7))
     = [(''gateway.example'', ''/v1/models'')] \<and>
   s_logged (worker_fetch healthy
       (example_request ''GET'' ''/constructor/v1/models'' None) passthrough_env 0 7)
     = [\<lparr>indexes = [''constructor''],
         blobs = [JStr ''constructor'', JStr ''unknown'', JNull], doubles = [200, 7]\<rparr>]"
  by (simp add: worker_defs js_defs example_defs Let_def)

subsection \<open>Rotation without a pool\<close>

text \<open>
  Claim C6 says that a request in rotation mode whose provider has no usable pool is
  answered 326, makes no upstream call, and is never logged.

  As stated it fails on the last point: the 326 response is returned by
  \<^verbatim>\<open>handleRequestWithRotation\<close>, so \<^verbatim>\<open>fetch\<close> logs it like every other response of the
  handler when the \<^verbatim>\<open>LOGS\<close> binding exists.
\<close>

theorem no_pool_is_logged_counterexample:
  "rotation_selected no_pool_env (example_request ''GET'' ''/openai/v1/models'' None) ''openai'' \<and>
   vars no_pool_env (toUpperCase ''openai'' @ ''_KEYS'') = None \<and>
   LOGS no_pool_env \<and>
   status (s_response (worker_fetch healthy (example_request ''GET'' ''/openai/v1/models'' None)
       no_pool_env 0 7)) = 326 \<and>
   s_logged (worker_fetch healthy (example_request ''GET'' ''/openai/v1/models'' None)
       no_pool_env 0 7)
     = [\<lparr>indexes = [''openai''], blobs = [JStr ''openai'', JStr ''unknown'', JNull],
         doubles = [326, 7]\<rparr>]"
  by (simp add: worker_defs js_defs example_defs Let_def)

text \<open>
  Claim C6, amended. On a path the worker accepts, with a method other than
  \<^verbatim>\<open>OPTIONS\<close>, in rotation mode, when the pool variable is unset or empty or parses to
  something that is not a non-empty array: the response is the 326 response of lines 218
  and 226, no upstream call is made, and exactly when the \<^verbatim>\<open>LOGS\<close> binding exists one
  data point is written, with status 326.
\<close>

theorem no_pool_is_326:
  fixes P :: platform
  assumes "filter (\<lambda>seg. seg \<noteq> []) (split CHR ''/'' (pathname (r_url request))) = service # rest"
    and "ROUTE_MAP_get service \<noteq> None"
    and "r_method request \<noteq> ''OPTIONS''"
    and "rotation_selected e request service"
    and "vars e (toUpperCase service @ ''_KEYS'') = None \<or>
         vars e (toUpperCase service @ ''_KEYS'') = Some [] \<or>
         (\<exists>pool v. vars e (toUpperCase service @ ''_KEYS'') = Some pool \<and>
            JSON_parse P pool = Inr v \<and> (\<forall>serviceKeys. v = JArr serviceKeys \<longrightarrow> serviceKeys = []))"
  shows "s_response (worker_fetch P request e startTime now) = no_keys_response \<and>
         status no_keys_response = 326 \<and>
         s_attempts (worker_fetch P request e startTime now) = [] \<and>
         s_logged (worker_fetch P request e startTime now) =
           (if LOGS e then
              [\<lparr>indexes = [service],
                blobs = [JStr service, extract_model P e request service (service # rest), JNull],
                doubles = [326, now - startTime]\<rparr>]
            else [])"
proof -
  let ?u = "rewrite_url (r_url request) service"
  have h: "handleRequestWithRotation P request service e = rotation_mode P request service e ?u"
    using assms(3,4) by (rule handle_rotation)
  have mode: "rotation_mode P request service e ?u =
      \<lparr>h_result = Inr no_keys_response, h_attempts = [], h_db = DB e\<rparr>"
    using assms(5)
  proof (elim disjE exE conjE)
    assume "vars e (toUpperCase service @ ''_KEYS'') = None"
    then show ?thesis by (simp add: rotation_mode_def)
  next
    assume "vars e (toUpperCase service @ ''_KEYS'') = Some []"
    then show ?thesis by (simp add: rotation_mode_def)
  next
    fix pool v
    assume a: "vars e (toUpperCase service @ ''_KEYS'') = Some pool" "JSON_parse P pool = Inr v"
      "\<forall>serviceKeys. v = JArr serviceKeys \<longrightarrow> serviceKeys = []"
    then show ?thesis by (cases v) (simp_all add: rotation_mode_def)
  qed
  have st: "status no_keys_response = 326"
    by (simp add: no_keys_response_def text_response_def)
  show ?thesis
    by (simp add: worker_fetch_valid [OF assms(1,2)] h mode st)
qed

theorem no_pool_is_326_witness:
  "filter (\<lambda>seg. seg \<noteq> [])
     (split CHR ''/'' (pathname (r_url (example_request ''GET'' ''/openai/v1/models'' None))))
     = ''openai'' # [''v1'', ''models''] \<and>
   ROUTE_MAP_get ''openai'' = Some (Host ''api.openai.com'') \<and>
   r_method (example_request ''GET'' ''/openai/v1/models'' None) \<noteq> ''OPTIONS'' \<and>
   rotation_selected (example_env None\<lparr>vars := (\<lambda>name. Some ''[]'')\<rparr>)
     (example_request ''GET'' ''/openai/v1/models'' None) ''openai'' \<and>
   JSON_parse healthy ''[]'' = Inr (JArr []) \<and>
   s_response (worker_fetch healthy (example_request ''GET'' ''/openai/v1/models'' None)
       (example_env None\<lparr>vars := (\<lambda>name. Some ''[]'')\<rparr>) 0 7) = no_keys_response \<and>
   s_attempts (worker_fetch healthy (example_request ''GET'' ''/openai/v1/models'' None)
       (example_env None\<lparr>vars := (\<lambda>name. Some ''[]'')\<rparr>) 0 7) = [] \<and>
   s_logged (worker_fetch healthy (example_request ''GET'' ''/openai/v1/models'' None)
       (example_env None\<lparr>vars := (\<lambda>name. Some ''[]'')\<rparr>) 0 7)
     = [\<lparr>indexes = [''openai''], blobs = [JStr ''openai'', JStr ''unknown'', JNull],
         doubles = [326, 7]\<rparr>]"
proof -
  let ?rq = "example_request ''GET'' ''/openai/v1/models'' None"
  let ?e = "example_env None\<lparr>vars := (\<lambda>name. Some ''[]'')\<rparr>"
  have h1: "filter (\<lambda>seg. seg \<noteq> []) (split CHR ''/'' (pathname (r_url ?rq)))
      = ''openai'' # [''v1'', ''models'']"
    by (simp add: example_defs)
  have h2': "ROUTE_MAP_get ''openai'' = Some (Host ''api.openai.com'')"
    by (simp add: ROUTE_MAP_get_def ROUTE_MAP_def)
  then have h2: "ROUTE_MAP_get ''openai'' \<noteq> None" by simp
  have h3: "r_method ?rq \<noteq> ''OPTIONS''" by (simp add: example_defs)
  have h4: "rotation_selected ?e ?rq ''openai''"
    by (simp add: rotation_selected_def extractApiKey_def js_defs example_defs)
  have p: "JSON_parse healthy ''[]'' = Inr (JArr [])"
    by (simp add: example_defs)
  have h5: "vars ?e (toUpperCase ''openai'' @ ''_KEYS'') = None \<or>
         vars ?e (toUpperCase ''openai'' @ ''_KEYS'') = Some [] \<or>
         (\<exists>pool v. vars ?e (toUpperCase ''openai'' @ ''_KEYS'') = Some pool \<and>
            JSON_parse healthy pool = Inr v \<and> (\<forall>serviceKeys. v = JArr serviceKeys \<longrightarrow> serviceKeys = []))"
    using p by (simp add: example_defs)
  have m: "extract_model healthy ?e ?rq ''openai'' [''openai'', ''v1'', ''models''] = JStr ''unknown''"
    by (simp add: extract_model_def example_defs)
  have l: "LOGS ?e" by (simp add: example_defs)
  from no_pool_is_326 [OF h1 h2 h3 h4 h5, of 0 7]
  have "s_response (worker_fetch healthy ?rq ?e 0 7) = no_keys_response \<and>
        s_attempts (worker_fetch healthy ?rq ?e 0 7) = [] \<and>
        s_logged (worker_fetch healthy ?rq ?e 0 7)
          = [\<lparr>indexes = [''openai''], blobs = [JStr ''openai'', JStr ''unknown'', JNull],
              doubles = [326, 7]\<rparr>]"
    by (simp add: m l)
  with h1 h2' h3 h4 p show ?thesis by (intro conjI) simp_all
qed

subsection \<open>Pass-through\<close>

text \<open>
  Claim C7 says that a request on a provider path that is not eligible for rotation makes
  exactly one upstream call, with the inbound headers unchanged, to the inbound URL with
  its authority replaced by the provider's host and the provider segment stripped.

  As stated it fails on the authority: line 202 assigns \<^verbatim>\<open>url.hostname\<close>, which leaves
  the port of the inbound URL in place.
\<close>

theorem pass_through_keeps_port_counterexample:
  "ROUTE_MAP_get ''openai'' = Some (Host ''api.openai.com'') \<and>
   \<not> rotation_selected passthrough_env port_request ''openai'' \<and>
   url_host (r_url port_request) = ''gateway.example:8443'' \<and>
   length (h_attempts (handleRequestWithRotation healthy port_request ''openai''
     passthrough_env)) = 1 \<and>
   url_host (r_url (sent_request (hd (h_attempts (handleRequestWithRotation healthy
     port_request ''openai'' passthrough_env))))) = ''api.openai.com:8443''"
  by (simp add: worker_defs js_defs example_defs url_host_def Let_def)

text \<open>
  Claim C7, amended. For a provider of \<^verbatim>\<open>ROUTE_MAP\<close>, a method other than \<^verbatim>\<open>OPTIONS\<close>
  and a request outside rotation mode, whose path is \<^verbatim>\<open>/<provider>\<close> followed by nothing
  or by a slash: the handler makes exactly one upstream call, whatever its outcome; the
  request sent has the inbound method, headers and body, and the inbound URL with the
  host name replaced by the provider's host and the prefix \<^verbatim>\<open>/<provider>\<close> removed from
  the path (an empty path becoming \<^verbatim>\<open>/\<close>); scheme, port and query are kept.
\<close>

theorem pass_through_one_call:
  fixes P :: platform
  assumes "ROUTE_MAP_get service = Some (Host host)"
    and "r_method request \<noteq> ''OPTIONS''"
    and "\<not> rotation_selected e request service"
    and "pathname (r_url request) = CHR ''/'' # service @ rest"
    and "rest = [] \<or> hd rest = CHR ''/''"
  shows "h_attempts (handleRequestWithRotation P request service e) =
    [\<lparr>key_index = None,
      sent_request =
        \<lparr>r_method = r_method request,
         r_url = (r_url request)\<lparr>hostname := host,
                                 pathname := (if rest = [] then ''/'' else rest)\<rparr>,
         r_headers = r_headers request, r_body = r_body request\<rparr>,
      outcome =
        upstream P []
          \<lparr>r_method = r_method request,
           r_url = (r_url request)\<lparr>hostname := host,
                                   pathname := (if rest = [] then ''/'' else rest)\<rparr>,
           r_headers = r_headers request, r_body = r_body request\<rparr>\<rparr>]"
proof -
  have u: "rewrite_url (r_url request) service =
      (r_url request)\<lparr>hostname := host, pathname := (if rest = [] then ''/'' else rest)\<rparr>"
    using assms(1,4,5)
    by (cases rest) (auto simp: rewrite_url_def set_hostname_def set_pathname_def startsWith_def)
  show ?thesis
    by (simp add: handle_pass_through [OF assms(2,3)] pass_through_def new_Request_def u
        split: sum.splits)
qed

theorem pass_through_one_call_witness:
  "ROUTE_MAP_get ''openai'' = Some (Host ''api.openai.com'') \<and>
   r_method (example_request ''POST'' ''/openai/v1/chat/completions'' (Some ''{}'')) \<noteq> ''OPTIONS'' \<and>
   \<not> rotation_selected passthrough_env
       (example_request ''POST'' ''/openai/v1/chat/completions'' (Some ''{}'')) ''openai'' \<and>
   pathname (r_url (example_request ''POST'' ''/openai/v1/chat/completions'' (Some ''{}'')))
     = CHR ''/'' # ''openai'' @ ''/v1/chat/completions'' \<and>
   h_attempts (handleRequestWithRotation busy
       (example_request ''POST'' ''/openai/v1/chat/completions'' (Some ''{}'')) ''openai''
       passthrough_env) =
     [\<lparr>key_index = None,
       sent_request =
         \<lparr>r_method = ''POST'',
          r_url = \<lparr>protocol = ''https:'', hostname = ''api.openai.com'', port = [],
                   pathname = ''/v1/chat/completions'', searchParams = []\<rparr>,
          r_headers = [(''authorization'', ''Bearer M'')], r_body = Some ''{}''\<rparr>,
       outcome = Inr \<lparr>status = 429, headers = [], body = Some ''Bearer M''\<rparr>\<rparr>]"
proof -
  let ?rq = "example_request ''POST'' ''/openai/v1/chat/completions'' (Some ''{}'')"
  have h1: "ROUTE_MAP_get ''openai'' = Some (Host ''api.openai.com'')"
    by (simp add: ROUTE_MAP_get_def ROUTE_MAP_def)
  have h2: "r_method ?rq \<noteq> ''OPTIONS''" by (simp add: example_defs)
  have h3: "\<not> rotation_selected passthrough_env ?rq ''openai''"
    by (simp add: rotation_selected_def js_defs example_defs)
  have h4: "pathname (r_url ?rq) = CHR ''/'' # ''openai'' @ ''/v1/chat/completions''"
    by (simp add: example_defs)
  have h5: "''/v1/chat/completions'' = [] \<or> hd ''/v1/chat/completions'' = CHR ''/''" by simp
  from pass_through_one_call [OF h1 h2 h3 h4 h5, of busy]
  have "h_attempts (handleRequestWithRotation busy ?rq ''openai'' passthrough_env) =
     [\<lparr>key_index = None,
       sent_request =
         \<lparr>r_method = ''POST'',
          r_url = \<lparr>protocol = ''https:'', hostname = ''api.openai.com'', port = [],
                   pathname = ''/v1/chat/completions'', searchParams = []\<rparr>,
          r_headers = [(''authorization'', ''Bearer M'')], r_body = Some ''{}''\<rparr>,
       outcome = Inr \<lparr>status = 429, headers = [], body = Some ''Bearer M''\<rparr>\<rparr>]"
    by (simp add: example_defs js_defs)
  with h1 h2 h3 h4 show ?thesis by (intro conjI)
qed

text \<open>
  The amended claim is about paths that begin with the provider segment. A path with a
  doubled leading slash is accepted by \<^verbatim>\<open>fetch\<close>, which drops empty segments, while line
  203 removes as many characters as \<^verbatim>\<open>/<provider>\<close> has, whatever they are:
\<close>

lemma doubled_slash_path:
  "map (\<lambda>a. pathname (r_url (sent_request a)))
     (s_attempts (worker_fetch healthy (example_request ''GET'' ''//openai/v1/models'' None)
        passthrough_env 0 7))
     = [''/i/v1/models'']"
  by (simp add: worker_defs js_defs example_defs Let_def)

subsection \<open>CORS headers\<close>

lemma lower_acao [simp]:
  "toLowerCase ''Access-Control-Allow-Origin'' = ''access-control-allow-origin''"
  "toLowerCase ''Access-Control-Allow-Methods'' = ''access-control-allow-methods''"
  "toLowerCase ''Access-Control-Allow-Headers'' = ''access-control-allow-headers''"
  by (simp_all add: toLowerCase_def upper_letters_def lower_letters_def)

lemma own_response_no_cors:
  "own_response r \<Longrightarrow> \<not> headers_has (headers r) ''Access-Control-Allow-Origin''"
  by (simp add: own_response_def headers_has_def)

lemma own_text_response: "st \<in> set [325, 326, 429, 500] \<Longrightarrow> own_response (text_response text st)"
  by (simp add: own_response_def text_response_def)

lemma handleOptions_cors: "permissive_cors handleOptions"
  by (simp add: permissive_cors_def handleOptions_def headers_get_def)

lemma applyCorsHeaders_has:
  "headers_has (headers (applyCorsHeaders x)) ''Access-Control-Allow-Origin''"
  by (simp add: applyCorsHeaders_def headers_has_def headers_set_def update_conv')

lemma applyCorsHeaders_permissive:
  "\<not> headers_has (headers x) ''Access-Control-Allow-Origin'' \<Longrightarrow>
   permissive_cors (applyCorsHeaders x)"
  by (simp add: applyCorsHeaders_def permissive_cors_def headers_get_def headers_set_def
      update_conv')

lemma loop_result:
  fixes P :: platform
  assumes "fst (rotation_loop P request service u serviceKeys maxRetries retryCount
      currentIndex lastResponse sent) = Inr r"
  shows "own_response r \<or>
    (\<exists>v. (lastResponse = Some v \<or>
           (\<exists>a. a \<in> set (snd (rotation_loop P request service u serviceKeys maxRetries
                   retryCount currentIndex lastResponse sent)) \<and> outcome a = Inr v)) \<and>
         r = applyCorsHeaders (new_Response (body v) v))"
  using assms
proof (induction retryCount currentIndex lastResponse sent
    rule: loop_induct [where P = P and request = request and service = service and u = u
      and serviceKeys = serviceKeys and maxRetries = maxRetries])
  case (stop retryCount currentIndex lastResponse sent)
  then show ?case
    by (auto simp: loop_stop after_loop_def exhausted_response_def own_text_response
        split: option.splits if_splits)
next
  case (throw retryCount currentIndex lastResponse sent msg)
  then show ?case by (simp add: loop_throw)
next
  case (return retryCount currentIndex lastResponse sent rq r')
  then show ?case by (auto simp: loop_return)
next
  case (retry429 retryCount currentIndex lastResponse sent rq r')
  let ?a = "\<lparr>key_index = Some currentIndex, sent_request = rq, outcome = Inr r'\<rparr>"
  let ?rest = "rotation_loop P request service u serviceKeys maxRetries (Suc retryCount)
      ((currentIndex + 1) mod length serviceKeys) (Some r') (sent @ [rq])"
  have eq: "rotation_loop P request service u serviceKeys maxRetries retryCount currentIndex
      lastResponse sent = with_attempt ?a ?rest"
    using retry429.hyps by (simp add: loop_429)
  from retry429.prems have "fst ?rest = Inr r" by (simp add: eq)
  from retry429.IH [OF this] show ?case
  proof (elim disjE exE conjE)
    assume "own_response r"
    then show ?thesis by simp
  next
    fix v
    assume "Some r' = Some v" "r = applyCorsHeaders (new_Response (body v) v)"
    then have "?a \<in> set (snd (with_attempt ?a ?rest)) \<and> outcome ?a = Inr v \<and>
        r = applyCorsHeaders (new_Response (body v) v)"
      by simp
    then show ?thesis unfolding eq by blast
  next
    fix v a
    assume "a \<in> set (snd ?rest)" "outcome a = Inr v"
      "r = applyCorsHeaders (new_Response (body v) v)"
    then have "a \<in> set (snd (with_attempt ?a ?rest)) \<and> outcome a = Inr v \<and>
        r = applyCorsHeaders (new_Response (body v) v)"
      by simp
    then show ?thesis unfolding eq by blast
  qed
next
  case (failed retryCount currentIndex lastResponse sent rq err)
  let ?a = "\<lparr>key_index = Some currentIndex, sent_request = rq, outcome = Inl err\<rparr>"
  let ?rest = "rotation_loop P request service u serviceKeys maxRetries (Suc retryCount)
      ((currentIndex + 1) mod length serviceKeys) lastResponse (sent @ [rq])"
  have eq: "rotation_loop P request service u serviceKeys maxRetries retryCount currentIndex
      lastResponse sent = with_attempt ?a ?rest"
    using failed.hyps by (simp add: loop_failed)
  from failed.prems have "fst ?rest = Inr r" by (simp add: eq)
  from failed.IH [OF this] show ?case
  proof (elim disjE exE conjE)
    assume "own_response r"
    then show ?thesis by simp
  next
    fix v
    assume "lastResponse = Some v" "r = applyCorsHeaders (new_Response (body v) v)"
    then show ?thesis by blast
  next
    fix v a
    assume "a \<in> set (snd ?rest)" "outcome a = Inr v"
      "r = applyCorsHeaders (new_Response (body v) v)"
    then have "a \<in> set (snd (with_attempt ?a ?rest)) \<and> outcome a = Inr v \<and>
        r = applyCorsHeaders (new_Response (body v) v)"
      by simp
    then show ?thesis unfolding eq by blast
  qed
qed

lemma rotation_mode_result:
  fixes P :: platform
  shows "\<exists>r. h_result (rotation_mode P request service e u) = Inr r \<and>
     (own_response r \<or>
      (\<exists>a v. a \<in> set (h_attempts (rotation_mode P request service e u)) \<and> outcome a = Inr v \<and>
         r = applyCorsHeaders (new_Response (body v) v)))"
proof -
  have no_keys: "own_response no_keys_response"
    by (simp add: no_keys_response_def own_text_response)
  have err: "own_response (rotation_error_response msg)" for msg
    by (simp add: rotation_error_response_def own_text_response)
  show ?thesis
  proof (cases "vars e (toUpperCase service @ ''_KEYS'')")
    case None
    then show ?thesis by (simp add: rotation_mode_def no_keys)
  next
    case (Some pool)
    show ?thesis
    proof (cases "pool = []")
      case True
      with Some show ?thesis by (simp add: rotation_mode_def no_keys)
    next
      case pool: False
      show ?thesis
      proof (cases "JSON_parse P pool")
        case (Inl msg)
        with Some pool show ?thesis by (simp add: rotation_mode_def err)
      next
        case (Inr v)
        show ?thesis
        proof (cases "\<exists>serviceKeys. v = JArr serviceKeys \<and> serviceKeys \<noteq> []")
          case False
          with Some pool Inr show ?thesis
            by (cases v) (simp_all add: rotation_mode_def no_keys)
        next
          case True
          then obtain serviceKeys where v: "v = JArr serviceKeys" "serviceKeys \<noteq> []" by blast
          note mode = rotation_mode_pool [OF Some pool Inr [unfolded v(1)] v(2), of request u]
          show ?thesis
          proof (cases "getNextKeyIndex (DB e) service (length serviceKeys)")
            case (Inl msg)
            then show ?thesis by (simp add: mode err)
          next
            case (Inr p)
            obtain currentIndex db' where p: "p = (currentIndex, db')" by (cases p)
            let ?L = "rotation_loop P request service u serviceKeys
                (Math_min (rotationLimit e) (int (length serviceKeys))) 0 currentIndex None []"
            have eq: "rotation_mode P request service e u = loop_outcome ?L db'"
              by (simp add: mode Inr p)
            show ?thesis
            proof (cases "fst ?L")
              case (Inl msg)
              then show ?thesis by (simp add: eq loop_outcome_def err)
            next
              case res: (Inr r)
              from loop_result [OF res] res show ?thesis
                by (auto simp: eq loop_outcome_def)
            qed
          qed
        qed
      qed
    qed
  qed
qed

lemma pass_through_result:
  fixes P :: platform
  shows "(\<exists>msg. h_result (pass_through P request e u) = Inl msg) \<or>
     (\<exists>a v. a \<in> set (h_attempts (pass_through P request e u)) \<and> outcome a = Inr v \<and>
        h_result (pass_through P request e u) = Inr (applyCorsHeaders (new_Response (body v) v)))"
  by (auto simp: pass_through_def split: sum.splits)

lemma applyCorsHeaders_kept:
  "headers_has (headers x) ''Access-Control-Allow-Origin'' \<Longrightarrow> applyCorsHeaders x = x"
  by (simp add: applyCorsHeaders_def)

lemma applyCorsHeaders_stamped:
  assumes "\<not> headers_has (headers x) ''Access-Control-Allow-Origin''"
  shows "headers_get (headers (applyCorsHeaders x)) ''Access-Control-Allow-Origin'' = Some ''*'' \<and>
    headers_get (headers (applyCorsHeaders x)) ''Access-Control-Allow-Methods''
      = Some ''GET, POST, PUT, DELETE, PATCH, OPTIONS'' \<and>
    headers_get (headers (applyCorsHeaders x)) ''Access-Control-Allow-Headers''
      = Some ''Content-Type, Authorization, x-api-key, x-goog-api-key, anthropic-version, openai-organization'' \<and>
    (\<forall>name. toLowerCase name \<notin> set [''access-control-allow-origin'',
         ''access-control-allow-methods'', ''access-control-allow-headers''] \<longrightarrow>
       headers_get (headers (applyCorsHeaders x)) name = headers_get (headers x) name)"
  using assms
  by (simp add: applyCorsHeaders_def headers_get_def headers_set_def update_conv'
      allow_methods_def allow_headers_def)

text \<open>
  Claim C8 says that every response returned to the caller carries the permissive CORS
  headers, the responses 325, 326, 500 and the generic 429 included.

  As stated it fails on those: \<^verbatim>\<open>applyCorsHeaders\<close> is called on the copies of upstream
  responses only, and the responses the worker builds from a text of its own are returned
  as built.
\<close>

theorem cors_missing_on_325_counterexample:
  "status (s_response (worker_fetch healthy (example_request ''GET'' ''/'' None)
       passthrough_env 0 7)) = 325 \<and>
   \<not> headers_has (headers (s_response (worker_fetch healthy (example_request ''GET'' ''/'' None)
       passthrough_env 0 7))) ''Access-Control-Allow-Origin''"
  by (simp add: worker_defs js_defs example_defs Let_def)

text \<open>
  Claim C8, amended. Every response is of one of three kinds. A response the worker
  builds itself (325, 326, 500, the generic 429) carries no
  \<^verbatim>\<open>Access-Control-Allow-Origin\<close>. The response to \<^verbatim>\<open>OPTIONS\<close> carries the three
  permissive headers. A response copied from an upstream response, in rotation or in
  pass-through, has the status and the body of that response and carries
  \<^verbatim>\<open>Access-Control-Allow-Origin\<close>. When the upstream response came with an
  \<^verbatim>\<open>Access-Control-Allow-Origin\<close> of its own, nothing is stamped: the headers are
  those of the upstream response. Otherwise the three headers have the permissive values
  (origin \<^verbatim>\<open>*\<close>, the six methods, the list of allowed headers) and every other header
  is that of the upstream response.
\<close>

theorem cors_on_upstream_responses:
  fixes P :: platform
  shows "(own_response (s_response (worker_fetch P request e startTime now)) \<and>
          \<not> headers_has (headers (s_response (worker_fetch P request e startTime now)))
              ''Access-Control-Allow-Origin'') \<or>
         (s_response (worker_fetch P request e startTime now) = handleOptions \<and>
          permissive_cors handleOptions) \<or>
         (\<exists>a v. a \<in> set (s_attempts (worker_fetch P request e startTime now)) \<and>
            outcome a = Inr v \<and>
            s_response (worker_fetch P request e startTime now)
              = applyCorsHeaders (new_Response (body v) v) \<and>
            headers_has (headers (s_response (worker_fetch P request e startTime now)))
              ''Access-Control-Allow-Origin'' \<and>
            (headers_has (headers v) ''Access-Control-Allow-Origin'' \<or>
             permissive_cors (s_response (worker_fetch P request e startTime now))) \<and>
            status (s_response (worker_fetch P request e startTime now)) = status v \<and>
            body (s_response (worker_fetch P request e startTime now)) = body v \<and>
            (headers_has (headers v) ''Access-Control-Allow-Origin'' \<longrightarrow>
               headers (s_response (worker_fetch P request e startTime now)) = headers v) \<and>
            (\<not> headers_has (headers v) ''Access-Control-Allow-Origin'' \<longrightarrow>
               headers_get (headers (s_response (worker_fetch P request e startTime now)))
                 ''Access-Control-Allow-Origin'' = Some ''*'' \<and>
               headers_get (headers (s_response (worker_fetch P request e startTime now)))
                 ''Access-Control-Allow-Methods'' = Some ''GET, POST, PUT, DELETE, PATCH, OPTIONS'' \<and>
               headers_get (headers (s_response (worker_fetch P request e startTime now)))
                 ''Access-Control-Allow-Headers''
                 = Some ''Content-Type, Authorization, x-api-key, x-goog-api-key, anthropic-version, openai-organization'' \<and>
               (\<forall>name. toLowerCase name \<notin> set [''access-control-allow-origin'',
                    ''access-control-allow-methods'', ''access-control-allow-headers''] \<longrightarrow>
                  headers_get (headers (s_response (worker_fetch P request e startTime now))) name
                    = headers_get (headers v) name)))"
proof -
  let ?w = "worker_fetch P request e startTime now"
  have own: "own_response r \<Longrightarrow> s_response ?w = r \<Longrightarrow> ?thesis" for r
    using own_response_no_cors by blast
  have proxied: ?thesis
    if "a \<in> set (s_attempts ?w)" "outcome a = Inr v"
      "s_response ?w = applyCorsHeaders (new_Response (body v) v)" for a v
  proof -
    have has: "headers_has (headers (s_response ?w)) ''Access-Control-Allow-Origin''"
      by (simp add: that(3) applyCorsHeaders_has)
    have perm: "headers_has (headers v) ''Access-Control-Allow-Origin'' \<or> permissive_cors (s_response ?w)"
      using applyCorsHeaders_permissive [of "new_Response (body v) v"] by (auto simp: that(3))
    have st: "status (s_response ?w) = status v" "body (s_response ?w) = body v"
      by (simp_all add: that(3))
    have kept: "headers (s_response ?w) = headers v"
      if "headers_has (headers v) ''Access-Control-Allow-Origin''"
      using that by (simp add: \<open>s_response ?w = applyCorsHeaders (new_Response (body v) v)\<close>
          applyCorsHeaders_kept)
    have stamped: "headers_get (headers (s_response ?w)) ''Access-Control-Allow-Origin'' = Some ''*'' \<and>
        headers_get (headers (s_response ?w)) ''Access-Control-Allow-Methods''
          = Some ''GET, POST, PUT, DELETE, PATCH, OPTIONS'' \<and>
        headers_get (headers (s_response ?w)) ''Access-Control-Allow-Headers''
          = Some ''Content-Type, Authorization, x-api-key, x-goog-api-key, anthropic-version, openai-organization'' \<and>
        (\<forall>name. toLowerCase name \<notin> set [''access-control-allow-origin'',
             ''access-control-allow-methods'', ''access-control-allow-headers''] \<longrightarrow>
           headers_get (headers (s_response ?w)) name = headers_get (headers v) name)"
      if "\<not> headers_has (headers v) ''Access-Control-Allow-Origin''"
      using that applyCorsHeaders_stamped [of "new_Response (body v) v"]
      by (simp add: \<open>s_response ?w = applyCorsHeaders (new_Response (body v) v)\<close>)
    from \<open>a \<in> set (s_attempts ?w)\<close> \<open>outcome a = Inr v\<close>
      \<open>s_response ?w = applyCorsHeaders (new_Response (body v) v)\<close> has perm st kept stamped
    show ?thesis by blast
  qed
  show ?thesis
  proof (cases "filter (\<lambda>seg. seg \<noteq> []) (split CHR ''/'' (pathname (r_url request)))")
    case Nil
    then have "s_response ?w = url_format_response" by (simp add: unknown_name_is_refused)
    moreover have "own_response url_format_response"
      by (simp add: url_format_response_def own_text_response)
    ultimately show ?thesis using own by blast
  next
    case (Cons service rest)
    show ?thesis
    proof (cases "ROUTE_MAP_get service = None")
      case True
      with Cons have "s_response ?w = url_format_response" by (simp add: unknown_name_is_refused)
      moreover have "own_response url_format_response"
        by (simp add: url_format_response_def own_text_response)
      ultimately show ?thesis using own by blast
    next
      case False
      note w = worker_fetch_valid [OF Cons False, of P e startTime now]
      let ?h = "handleRequestWithRotation P request service e"
      show ?thesis
      proof (cases "r_method request = ''OPTIONS''")
        case True
        then have "s_response ?w = handleOptions"
          by (simp add: w handleRequestWithRotation_def)
        then show ?thesis using handleOptions_cors by blast
      next
        case non_options: False
        show ?thesis
        proof (cases "rotation_selected e request service")
          case True
          from rotation_mode_result [of P request service e "rewrite_url (r_url request) service"]
          obtain r where r: "h_result ?h = Inr r"
            "own_response r \<or> (\<exists>a v. a \<in> set (h_attempts ?h) \<and> outcome a = Inr v \<and>
               r = applyCorsHeaders (new_Response (body v) v))"
            unfolding handle_rotation [OF non_options True] by blast
          from r(1) have resp: "s_response ?w = r" and calls: "s_attempts ?w = h_attempts ?h"
            by (simp_all add: w)
          from r(2) show ?thesis
          proof
            assume "own_response r"
            then show ?thesis using own resp by blast
          next
            assume "\<exists>a v. a \<in> set (h_attempts ?h) \<and> outcome a = Inr v \<and>
               r = applyCorsHeaders (new_Response (body v) v)"
            then obtain a v where av: "a \<in> set (h_attempts ?h)" "outcome a = Inr v"
              "r = applyCorsHeaders (new_Response (body v) v)"
              by blast
            have "a \<in> set (s_attempts ?w)" using av(1) by (simp add: calls)
            moreover note av(2)
            moreover have "s_response ?w = applyCorsHeaders (new_Response (body v) v)"
              using av(3) by (simp add: resp)
            ultimately show ?thesis by (rule proxied)
          qed
        next
          case False
          from pass_through_result [of P request e "rewrite_url (r_url request) service"]
          show ?thesis
          proof (elim disjE exE conjE)
            fix msg
            assume "h_result (pass_through P request e (rewrite_url (r_url request) service)) = Inl msg"
            then have "h_result ?h = Inl msg" by (simp add: handle_pass_through [OF non_options False])
            then have "s_response ?w =
                text_response (if msg \<noteq> [] then msg else ''An unexpected error occurred.'') 500"
              by (simp add: w)
            then show ?thesis using own own_text_response [of 500] by simp
          next
            fix a v
            assume "a \<in> set (h_attempts (pass_through P request e (rewrite_url (r_url request) service)))"
              "outcome a = Inr v"
              "h_result (pass_through P request e (rewrite_url (r_url request) service))
                 = Inr (applyCorsHeaders (new_Response (body v) v))"
            then have "a \<in> set (s_attempts ?w)" "outcome a = Inr v"
              "s_response ?w = applyCorsHeaders (new_Response (body v) v)"
              by (simp_all add: w handle_pass_through [OF non_options False])
            then show ?thesis by (rule proxied)
          qed
        qed
      qed
    qed
  qed
qed


theorem cors_on_upstream_responses_witness:
  "s_response (worker_fetch healthy (example_request ''GET'' ''/openai/v1/models'' None)
       passthrough_env 0 7)
     = applyCorsHeaders (new_Response (Some ''{}'')
         \<lparr>status = 200, headers = [(''content-type'', ''application/json'')],
          body = Some ''{}''\<rparr>) \<and>
   permissive_cors (s_response (worker_fetch healthy
       (example_request ''GET'' ''/openai/v1/models'' None) passthrough_env 0 7)) \<and>
   \<not> own_response (s_response (worker_fetch healthy
       (example_request ''GET'' ''/openai/v1/models'' None) passthrough_env 0 7)) \<and>
   s_response (worker_fetch healthy (example_request ''GET'' ''/openai/v1/models'' None)
       passthrough_env 0 7) \<noteq> handleOptions \<and>
   (\<exists>a v. a \<in> set (s_attempts (worker_fetch healthy
              (example_request ''GET'' ''/openai/v1/models'' None) passthrough_env 0 7)) \<and>
      outcome a = Inr v \<and>
      s_response (worker_fetch healthy (example_request ''GET'' ''/openai/v1/models'' None)
          passthrough_env 0 7) = applyCorsHeaders (new_Response (body v) v)) \<and>
   map outcome (s_attempts (worker_fetch own_cors
       (example_request ''GET'' ''/openai/v1/models'' None) passthrough_env 0 7))
     = [Inr \<lparr>status = 200,
             headers = [(''content-type'', ''application/json''),
                        (''access-control-allow-origin'', ''https://app.example'')],
             body = Some ''{}''\<rparr>] \<and>
   headers (s_response (worker_fetch own_cors
       (example_request ''GET'' ''/openai/v1/models'' None) passthrough_env 0 7))
     = [(''content-type'', ''application/json''),
        (''access-control-allow-origin'', ''https://app.example'')] \<and>
   status (s_response (worker_fetch own_cors
       (example_request ''GET'' ''/openai/v1/models'' None) passthrough_env 0 7)) = 200 \<and>
   headers_get (headers (s_response (worker_fetch healthy
       (example_request ''GET'' ''/openai/v1/models'' None) passthrough_env 0 7)))
     ''Access-Control-Allow-Methods'' = Some ''GET, POST, PUT, DELETE, PATCH, OPTIONS'' \<and>
   headers_get (headers (s_response (worker_fetch healthy
       (example_request ''GET'' ''/openai/v1/models'' None) passthrough_env 0 7)))
     ''Content-Type'' = Some ''application/json''"
proof -
  let ?w = "worker_fetch healthy (example_request ''GET'' ''/openai/v1/models'' None)
       passthrough_env 0 7"
  let ?c = "worker_fetch own_cors (example_request ''GET'' ''/openai/v1/models'' None)
       passthrough_env 0 7"
  let ?v = "\<lparr>status = 200, headers = [(''content-type'', ''application/json'')],
          body = Some ''{}''\<rparr>"
  let ?u = "\<lparr>status = 200,
             headers = [(''content-type'', ''application/json''),
                        (''access-control-allow-origin'', ''https://app.example'')],
             body = Some ''{}''\<rparr>"
  have r: "s_response ?w = applyCorsHeaders (new_Response (Some ''{}'') ?v)"
    by (simp add: worker_defs js_defs example_defs Let_def)
  have p: "permissive_cors (s_response ?w)"
    unfolding r by (rule applyCorsHeaders_permissive) (simp add: headers_has_def)
  have o: "\<not> own_response (s_response ?w)"
    unfolding r by (simp add: own_response_def applyCorsHeaders_def new_Response_def headers_has_def headers_set_def)
  have n: "s_response ?w \<noteq> handleOptions"
    unfolding r by (simp add: handleOptions_def applyCorsHeaders_def new_Response_def headers_has_def headers_set_def)
  have outs: "map outcome (s_attempts ?w) = [Inr ?v]"
    by (simp add: worker_defs js_defs example_defs Let_def)
  from cors_on_upstream_responses [of healthy "example_request ''GET'' ''/openai/v1/models'' None"
      passthrough_env 0 7] o n
  obtain a v where av: "a \<in> set (s_attempts ?w)" "outcome a = Inr v"
    "s_response ?w = applyCorsHeaders (new_Response (body v) v)"
    "\<not> headers_has (headers v) ''Access-Control-Allow-Origin'' \<longrightarrow>
       headers_get (headers (s_response ?w)) ''Access-Control-Allow-Methods''
         = Some ''GET, POST, PUT, DELETE, PATCH, OPTIONS'' \<and>
       (\<forall>name. toLowerCase name \<notin> set [''access-control-allow-origin'',
            ''access-control-allow-methods'', ''access-control-allow-headers''] \<longrightarrow>
          headers_get (headers (s_response ?w)) name = headers_get (headers v) name)"
    by blast
  from av(1,2,3) have ex: "\<exists>a v. a \<in> set (s_attempts ?w) \<and> outcome a = Inr v \<and>
      s_response ?w = applyCorsHeaders (new_Response (body v) v)"
    by blast
  from av(1) have "outcome a \<in> set (map outcome (s_attempts ?w))" by simp
  with av(2) have v: "v = ?v" by (simp add: outs)
  have lc: "toLowerCase ''Content-Type'' = ''content-type''" by (simp add: js_defs)
  from av(4) have m: "headers_get (headers (s_response ?w)) ''Access-Control-Allow-Methods''
         = Some ''GET, POST, PUT, DELETE, PATCH, OPTIONS''"
    and ct0: "toLowerCase ''Content-Type'' \<notin> set [''access-control-allow-origin'',
            ''access-control-allow-methods'', ''access-control-allow-headers''] \<longrightarrow>
          headers_get (headers (s_response ?w)) ''Content-Type'' = headers_get (headers v) ''Content-Type''"
    by (simp_all add: v headers_has_def)
  from ct0 have ct: "headers_get (headers (s_response ?w)) ''Content-Type'' = Some ''application/json''"
    by (simp add: lc v headers_get_def)
  have o2: "\<not> own_response (s_response ?c)"
    by (simp add: own_response_def worker_defs js_defs example_defs Let_def)
  have n2: "s_response ?c \<noteq> handleOptions"
    by (simp add: handleOptions_def worker_defs js_defs example_defs Let_def)
  have outs2: "map outcome (s_attempts ?c) = [Inr ?u]"
    by (simp add: worker_defs js_defs example_defs Let_def)
  from cors_on_upstream_responses [of own_cors "example_request ''GET'' ''/openai/v1/models'' None"
      passthrough_env 0 7] o2 n2
  obtain b u where bu: "b \<in> set (s_attempts ?c)" "outcome b = Inr u"
    "status (s_response ?c) = status u"
    "headers_has (headers u) ''Access-Control-Allow-Origin'' \<longrightarrow>
       headers (s_response ?c) = headers u"
    by blast
  from bu(1) have "outcome b \<in> set (map outcome (s_attempts ?c))" by simp
  with bu(2) have u: "u = ?u" by (simp add: outs2)
  from bu(4) have hk: "headers (s_response ?c) = [(''content-type'', ''application/json''),
        (''access-control-allow-origin'', ''https://app.example'')]"
    by (simp add: u headers_has_def)
  from bu(3) have sk: "status (s_response ?c) = 200" by (simp add: u)
  from r p o n ex outs2 hk sk m ct show ?thesis by (intro conjI)
qed

subsection \<open>The model field of a data point\<close>

lemma split_not_Nil: "split c s \<noteq> []"
  by (induction s) (auto split: list.splits)

lemma hd_split: "hd (split c s) = takeWhile (\<lambda>x. x \<noteq> c) s"
proof (induction s)
  case Nil
  show ?case by simp
next
  case (Cons x xs)
  then show ?case using split_not_Nil [of c xs] by (auto split: list.splits)
qed

lemma handle_ignores_LOGS:
  "handleRequestWithRotation P request service (e\<lparr>LOGS := b\<rparr>)
     = handleRequestWithRotation P request service e"
  by (simp add: handleRequestWithRotation_def rotation_mode_def pass_through_def rotationLimit_def
      Let_def cong: option.case_cong sum.case_cong json.case_cong if_cong)

text \<open>
  Claim C9 says that, with observability enabled, the model of a gemini request whose
  path has a segment \<^verbatim>\<open>models\<close> followed by another segment is that segment up to the
  first colon, that for the other providers on \<^verbatim>\<open>POST\<close> it is the \<^verbatim>\<open>model\<close> field of the
  parsed body, that anything else gives \<^verbatim>\<open>unknown\<close>, and that the computation never fails.

  As stated it fails for gemini in two ways, both by the guards of lines 140 and 144:
  the path is read for \<^verbatim>\<open>POST\<close> requests only, and \<^verbatim>\<open>models\<close> must be the third
  segment of the path, the model the fourth.
\<close>

theorem model_field_counterexample:
  "blobs (hd (s_logged (worker_fetch healthy
       (example_request ''GET'' ''/gemini/v1beta/models/gemini-pro:generateContent'' None)
       passthrough_env 0 7)))
     = [JStr ''gemini'', JStr ''unknown'', JNull] \<and>
   blobs (hd (s_logged (worker_fetch healthy
       (example_request ''POST'' ''/gemini/models/gemini-pro:generateContent'' (Some ''{}''))
       passthrough_env 0 7)))
     = [JStr ''gemini'', JStr ''unknown'', JNull]"
  by (simp add: worker_defs js_defs example_defs Let_def)

text \<open>
  Claim C9, amended. With the \<^verbatim>\<open>LOGS\<close> binding, on a path the worker accepts, one data
  point is written and its model is: \<^verbatim>\<open>unknown\<close> for every method other than \<^verbatim>\<open>POST\<close>;
  for a gemini \<^verbatim>\<open>POST\<close> whose third segment is \<^verbatim>\<open>models\<close> and that has a fourth segment,
  that segment up to its first colon (\<^verbatim>\<open>unknown\<close> if that is empty), and \<^verbatim>\<open>unknown\<close> for
  every other gemini path; for every other provider on \<^verbatim>\<open>POST\<close>, the value of the
  \<^verbatim>\<open>model\<close> field of the body parsed as JSON when the body parses to an object that has
  the field with a truthy value, and \<^verbatim>\<open>unknown\<close> otherwise. The computation cannot
  fail the request: the response and the upstream calls are those of the worker without
  the \<^verbatim>\<open>LOGS\<close> binding.
\<close>

theorem model_field:
  fixes P :: platform
  assumes "filter (\<lambda>seg. seg \<noteq> []) (split CHR ''/'' (pathname (r_url request))) = pathSegments"
    and "pathSegments = service # rest"
    and "ROUTE_MAP_get service \<noteq> None"
    and "LOGS e"
  shows "(\<exists>dp. s_logged (worker_fetch P request e startTime now) = [dp] \<and>
            blobs dp ! 1 =
              (if r_method request \<noteq> ''POST'' then JStr ''unknown''
               else if service = ''gemini'' then
                 (if 4 \<le> length pathSegments \<and> pathSegments ! 2 = ''models'' \<and>
                     takeWhile (\<lambda>c. c \<noteq> CHR '':'') (pathSegments ! 3) \<noteq> []
                  then JStr (takeWhile (\<lambda>c. c \<noteq> CHR '':'') (pathSegments ! 3))
                  else JStr ''unknown'')
               else
                 (case JSON_parse P (case r_body request of None \<Rightarrow> [] | Some b \<Rightarrow> b) of
                    Inr (JObj kvs) \<Rightarrow>
                      (case map_of (rev kvs) ''model'' of
                         Some m \<Rightarrow> if truthy m then m else JStr ''unknown''
                       | None \<Rightarrow> JStr ''unknown'')
                  | _ \<Rightarrow> JStr ''unknown''))) \<and>
         s_response (worker_fetch P request (e\<lparr>LOGS := False\<rparr>) startTime now)
           = s_response (worker_fetch P request e startTime now) \<and>
         s_attempts (worker_fetch P request (e\<lparr>LOGS := False\<rparr>) startTime now)
           = s_attempts (worker_fetch P request e startTime now)"
proof -
  have segs: "filter (\<lambda>seg. seg \<noteq> []) (split CHR ''/'' (pathname (r_url request))) = service # rest"
    using assms(1,2) by simp
  note w = worker_fetch_valid [OF segs assms(3)]
  have model: "extract_model P e request service pathSegments =
      (if r_method request \<noteq> ''POST'' then JStr ''unknown''
       else if service = ''gemini'' then
         (if 4 \<le> length pathSegments \<and> pathSegments ! 2 = ''models'' \<and>
             takeWhile (\<lambda>c. c \<noteq> CHR '':'') (pathSegments ! 3) \<noteq> []
          then JStr (takeWhile (\<lambda>c. c \<noteq> CHR '':'') (pathSegments ! 3))
          else JStr ''unknown'')
       else
         (case JSON_parse P (case r_body request of None \<Rightarrow> [] | Some b \<Rightarrow> b) of
            Inr (JObj kvs) \<Rightarrow>
              (case map_of (rev kvs) ''model'' of
                 Some m \<Rightarrow> if truthy m then m else JStr ''unknown''
               | None \<Rightarrow> JStr ''unknown'')
          | _ \<Rightarrow> JStr ''unknown''))"
    using assms(4)
    by (auto simp: extract_model_def get_model_def hd_split Let_def
        split: sum.splits json.splits option.splits)
  have logged: "\<exists>dp. s_logged (worker_fetch P request e startTime now) = [dp] \<and>
      blobs dp ! 1 = extract_model P e request service pathSegments"
    using assms(4) by (simp add: w assms(2) split: sum.splits)
  have same: "s_response (worker_fetch P request (e\<lparr>LOGS := False\<rparr>) startTime now)
           = s_response (worker_fetch P request e startTime now) \<and>
         s_attempts (worker_fetch P request (e\<lparr>LOGS := False\<rparr>) startTime now)
           = s_attempts (worker_fetch P request e startTime now)"
    by (simp add: w handle_ignores_LOGS split: sum.splits)
  from logged model same show ?thesis by simp
qed

theorem model_field_witness:
  "filter (\<lambda>seg. seg \<noteq> []) (split CHR ''/'' (pathname (r_url
       (example_request ''POST'' ''/gemini/v1beta/models/gemini-pro:generateContent''
          (Some ''{}'')))))
     = ''gemini'' # [''v1beta'', ''models'', ''gemini-pro:generateContent''] \<and>
   ROUTE_MAP_get ''gemini'' = Some (Host ''generativelanguage.googleapis.com'') \<and>
   LOGS passthrough_env \<and>
   (\<exists>dp. s_logged (worker_fetch healthy
             (example_request ''POST'' ''/gemini/v1beta/models/gemini-pro:generateContent''
                (Some ''{}'')) passthrough_env 0 7) = [dp] \<and>
         blobs dp ! 1 = JStr ''gemini-pro'')"
proof -
  let ?rq = "example_request ''POST'' ''/gemini/v1beta/models/gemini-pro:generateContent''
      (Some ''{}'')"
  let ?segs = "[''gemini'', ''v1beta'', ''models'', ''gemini-pro:generateContent'']"
  have h1: "filter (\<lambda>seg. seg \<noteq> []) (split CHR ''/'' (pathname (r_url ?rq))) = ?segs"
    by (simp add: example_defs)
  have h2: "?segs = ''gemini'' # [''v1beta'', ''models'', ''gemini-pro:generateContent'']"
    by simp
  have h3': "ROUTE_MAP_get ''gemini'' = Some (Host ''generativelanguage.googleapis.com'')"
    by (simp add: ROUTE_MAP_get_def ROUTE_MAP_def)
  then have h3: "ROUTE_MAP_get ''gemini'' \<noteq> None" by simp
  have h4: "LOGS passthrough_env" by (simp add: example_defs)
  have m: "r_method ?rq = ''POST''" by (simp add: example_defs)
  from model_field [OF h1 h2 h3 h4, of healthy 0 7, THEN conjunct1]
  have "\<exists>dp. s_logged (worker_fetch healthy ?rq passthrough_env 0 7) = [dp] \<and>
        blobs dp ! 1 = JStr ''gemini-pro''"
    by (simp add: m)
  with h1 h3' h4 show ?thesis by (intro conjI) simp_all
qed

end
